theory Spec2Isabelle
  imports Complex_Main "HOL-Library.Multiset"
begin

section \<open>Arrays and floating-point values\<close>

text \<open>
  The worker \<^verbatim>\<open>era5_polygon_worker.py\<close> handles NumPy arrays of floats. A
  float is modelled by an exact rational, the value NaN by \<open>None\<close>; a 2-D array is the
  list of its rows, all of one length (\<open>rect\<close>). Rounding is not modelled.
\<close>

type_synonym fval = "rat option"

type_synonym 'a array2 = "'a list list"

definition rect :: "nat \<Rightarrow> nat \<Rightarrow> 'a array2 \<Rightarrow> bool" where
  "rect h w a = (length a = h \<and> list_all (\<lambda>r. length r = w) a)"

definition ncols :: "'a array2 \<Rightarrow> nat" where
  "ncols a = (case a of [] \<Rightarrow> 0 | r # _ \<Rightarrow> length r)"

text \<open>Python's \<^verbatim>\<open>xs[a:b]\<close> for indices \<open>0 \<le> a\<close>, \<open>0 \<le> b\<close>.\<close>

definition slice :: "nat \<Rightarrow> nat \<Rightarrow> 'a list \<Rightarrow> 'a list" where
  "slice a b xs = take (b - a) (drop a xs)"

text \<open>\<^verbatim>\<open>arr[r0:r1, c0:c1]\<close>\<close>

definition slice2 :: "nat \<Rightarrow> nat \<Rightarrow> nat \<Rightarrow> nat \<Rightarrow> 'a array2 \<Rightarrow> 'a array2" where
  "slice2 r0 r1 c0 c1 a = map (slice c0 c1) (slice r0 r1 a)"

text \<open>\<^verbatim>\<open>np.any(m, axis=1)\<close>: one flag per row; \<^verbatim>\<open>np.any(m, axis=0)\<close>: one per column.\<close>

definition any_axis1 :: "bool array2 \<Rightarrow> bool list" where
  "any_axis1 m = map (\<lambda>r. True \<in> set r) m"

definition any_axis0 :: "bool array2 \<Rightarrow> bool list" where
  "any_axis0 m = map (\<lambda>j. list_ex (\<lambda>r. r ! j) m) [0..<ncols m]"

text \<open>
  \<^verbatim>\<open>np.argmax\<close> of a boolean vector: the index of the first maximum, so of the first
  True, and 0 when every entry is False.
\<close>

definition argmax :: "bool list \<Rightarrow> nat" where
  "argmax bs = (if True \<in> set bs then length (takeWhile Not bs) else 0)"

text \<open>\<^verbatim>\<open>np.where(m, d, np.nan)\<close> on arrays of one shape.\<close>

definition where_nan :: "bool array2 \<Rightarrow> fval array2 \<Rightarrow> fval array2" where
  "where_nan m d = map2 (\<lambda>mr dr. map2 (\<lambda>b x. if b then x else None) mr dr) m d"

section \<open>The bounding clipper\<close>

text \<open>The four indices \<^verbatim>\<open>clip_to_polygon_bounds\<close> computes from the mask.\<close>

definition row_start :: "bool array2 \<Rightarrow> nat" where
  "row_start m = argmax (any_axis1 m)"

definition row_end :: "bool array2 \<Rightarrow> nat" where
  "row_end m = length (any_axis1 m) - argmax (rev (any_axis1 m))"

definition col_start :: "bool array2 \<Rightarrow> nat" where
  "col_start m = argmax (any_axis0 m)"

definition col_end :: "bool array2 \<Rightarrow> nat" where
  "col_end m = length (any_axis0 m) - argmax (rev (any_axis0 m))"

text \<open>The result is in the source's order: data, mask, longitudes, latitudes.\<close>

definition clip_to_polygon_bounds ::
  "'a array2 \<Rightarrow> bool array2 \<Rightarrow> 'c list \<Rightarrow> 'c list \<Rightarrow> 'a array2 \<times> bool array2 \<times> 'c list \<times> 'c list"
where
  "clip_to_polygon_bounds data m lons lats =
     (let rows_with_data = any_axis1 m; cols_with_data = any_axis0 m in
      if True \<notin> set rows_with_data \<or> True \<notin> set cols_with_data then (data, m, lons, lats)
      else
        (slice2 (row_start m) (row_end m) (col_start m) (col_end m) data,
         slice2 (row_start m) (row_end m) (col_start m) (col_end m) m,
         slice (col_start m) (col_end m) lons,
         slice (row_start m) (row_end m) lats))"

text \<open>The properties the clipper is specified by.\<close>

definition has_true :: "bool array2 \<Rightarrow> bool" where
  "has_true m = list_ex (\<lambda>r. True \<in> set r) m"

text \<open>
  The half-open rectangle of rows \<open>r0 \<le> i < r1\<close> and columns \<open>c0 \<le> j < c1\<close> covers
  every True cell of the mask.
\<close>

definition covers :: "bool array2 \<Rightarrow> nat \<Rightarrow> nat \<Rightarrow> nat \<Rightarrow> nat \<Rightarrow> bool" where
  "covers m r0 r1 c0 c1 =
     (\<forall>i < length m. \<forall>j < length (m ! i). m ! i ! j \<longrightarrow> r0 \<le> i \<and> i < r1 \<and> c0 \<le> j \<and> j < c1)"

text \<open>Two arrays have one shape.\<close>

definition same_shape :: "'a array2 \<Rightarrow> 'b array2 \<Rightarrow> bool" where
  "same_shape a b = (map length a = map length b)"

section \<open>Variable names\<close>

text \<open>\<^verbatim>\<open>VARIABLE_NAME_MAP\<close>: the provider's long name of a variable to its NetCDF short name.\<close>

definition VARIABLE_NAME_MAP :: "(string \<times> string) list" where
  "VARIABLE_NAME_MAP =
    [(''2m_temperature'', ''t2m''),
     (''2m_dewpoint_temperature'', ''d2m''),
     (''skin_temperature'', ''skt''),
     (''soil_temperature_level_1'', ''stl1''),
     (''soil_temperature_level_2'', ''stl2''),
     (''soil_temperature_level_3'', ''stl3''),
     (''soil_temperature_level_4'', ''stl4''),
     (''total_precipitation'', ''tp''),
     (''total_evaporation'', ''e''),
     (''potential_evaporation'', ''pev''),
     (''snowfall'', ''sf''),
     (''snow_depth'', ''sd''),
     (''snow_albedo'', ''asn''),
     (''snowmelt'', ''smlt''),
     (''snow_melt'', ''smlt''),
     (''volumetric_soil_water_layer_1'', ''swvl1''),
     (''volumetric_soil_water_layer_2'', ''swvl2''),
     (''volumetric_soil_water_layer_3'', ''swvl3''),
     (''volumetric_soil_water_layer_4'', ''swvl4''),
     (''surface_solar_radiation_downwards'', ''ssrd''),
     (''surface_net_solar_radiation'', ''ssr''),
     (''surface_thermal_radiation_downwards'', ''strd''),
     (''surface_net_thermal_radiation'', ''str''),
     (''10m_u_component_of_wind'', ''u10''),
     (''10m_v_component_of_wind'', ''v10''),
     (''surface_pressure'', ''sp''),
     (''leaf_area_index_high_vegetation'', ''lai_hv''),
     (''leaf_area_index_low_vegetation'', ''lai_lv''),
     (''runoff'', ''ro''),
     (''surface_runoff'', ''sro''),
     (''sub_surface_runoff'', ''ssro'')]"

text \<open>\<^verbatim>\<open>VARIABLE_NAME_MAP.get(var_long_name, var_long_name)\<close>\<close>

definition var_short_name :: "string \<Rightarrow> string" where
  "var_short_name var_long_name =
     (case map_of VARIABLE_NAME_MAP var_long_name of Some s \<Rightarrow> s | None \<Rightarrow> var_long_name)"

section \<open>Geometry\<close>

text \<open>
  \<^verbatim>\<open>shapely.geometry.box(minx, miny, maxx, maxy)\<close>: the footprint of a cell. The
  geometries of the region and the operations of the libraries on them are not code of
  the worker: they are a parameter \<open>G\<close> of the model, a record of the operations the
  worker calls, over any type \<open>'g\<close> of geometries. The first six are operations of
  shapely and geopandas. The last one, \<open>all_touched\<close>, is the test of rasterio and GDAL
  whether a shape marks the pixel of a given footprint when it is burnt with
  \<^verbatim>\<open>all_touched=True\<close>. It is a test of its own: nothing ties it to \<open>intersects\<close>,
  and the two libraries need not agree, on a contact along a boundary or on a thin
  sliver for instance.
\<close>

datatype box = Box (minx: rat) (miny: rat) (maxx: rat) (maxy: rat)

record 'g geometry =
  intersects :: "box \<Rightarrow> 'g \<Rightarrow> bool"
  intersection :: "box \<Rightarrow> 'g \<Rightarrow> 'g"
  is_empty :: "'g \<Rightarrow> bool"
  area :: "'g \<Rightarrow> rat"
  union_all :: "'g list \<Rightarrow> 'g"
  total_bounds :: "'g list \<Rightarrow> rat \<times> rat \<times> rat \<times> rat"
  all_touched :: "box \<Rightarrow> 'g \<Rightarrow> bool"

text \<open>
  \<^verbatim>\<open>rasterio.transform.from_origin(west, north, xsize, ysize)\<close> is the affine map
  \<^verbatim>\<open>Affine(xsize, 0, west, 0, -ysize, north)\<close> from (column, row) to (x, y): row 0 is
  the northernmost row.
\<close>

datatype affine = Affine rat rat rat rat rat rat

definition from_origin :: "rat \<Rightarrow> rat \<Rightarrow> rat \<Rightarrow> rat \<Rightarrow> affine" where
  "from_origin west north xsize ysize = Affine xsize 0 west 0 (- ysize) north"

fun apply_affine :: "affine \<Rightarrow> rat \<times> rat \<Rightarrow> rat \<times> rat" where
  "apply_affine (Affine a b c d e f) (col, row) = (a * col + b * row + c, d * col + e * row + f)"

text \<open>The footprint of the pixel in row \<open>i\<close> and column \<open>j\<close> of a raster with transform \<open>T\<close>.\<close>

definition pixel_box :: "affine \<Rightarrow> nat \<Rightarrow> nat \<Rightarrow> box" where
  "pixel_box T i j =
     (let (x0, y0) = apply_affine T (of_nat j, of_nat i);
          (x1, y1) = apply_affine T (of_nat j + 1, of_nat i + 1)
      in Box (min x0 x1) (min y0 y1) (max x0 x1) (max y0 y1))"

text \<open>The centre of that pixel.\<close>

definition pixel_center :: "affine \<Rightarrow> nat \<Rightarrow> nat \<Rightarrow> rat \<times> rat" where
  "pixel_center T i j = apply_affine T (of_nat j + 1 / 2, of_nat i + 1 / 2)"

section \<open>The dataset\<close>

record timestamp =
  year :: nat
  month :: nat
  day :: nat
  hour :: nat
  minute :: nat

text \<open>
  The opened NetCDF dataset: the two coordinate vectors, the time coordinate under the
  name \<^verbatim>\<open>time\<close> or \<^verbatim>\<open>valid_time\<close> (or neither), and the data variables in
  the file's order, each a list of (latitude, longitude) slices, one per time index.
\<close>

record dataset =
  longitude :: "rat list"
  latitude :: "rat list"
  coord_time :: "timestamp list option"
  coord_valid_time :: "timestamp list option"
  data_vars :: "(string \<times> fval array2 list) list"

datatype error = ValueError | IndexError | KeyError | GeotransformError

text \<open>
  The cell size of an axis: \<^verbatim>\<open>abs(xs[1] - xs[0]) if len(xs) > 1 else 0.1\<close>, as
  \<^verbatim>\<open>create_polygon_mask\<close>, \<^verbatim>\<open>create_vector_grid\<close> and \<^verbatim>\<open>save_raster\<close> compute it.
\<close>

definition cell_res :: "rat list \<Rightarrow> rat" where
  "cell_res xs = (if length xs > 1 then \<bar>xs ! 1 - xs ! 0\<bar> else 1 / 10)"

text \<open>
  The transform \<^verbatim>\<open>create_polygon_mask\<close> and \<^verbatim>\<open>save_raster\<close> build from the
  coordinate vectors; \<^verbatim>\<open>lons.min()\<close> and \<^verbatim>\<open>lats.max()\<close> raise on an empty vector.
\<close>

definition grid_transform :: "rat list \<Rightarrow> rat list \<Rightarrow> error + affine" where
  "grid_transform lons lats =
     (if lons = [] \<or> lats = [] then Inl ValueError
      else
        let res_lon = cell_res lons; res_lat = cell_res lats;
            west = Min (set lons) - res_lon / 2;
            north = Max (set lats) + res_lat / 2
        in Inr (from_origin west north res_lon res_lat))"

section \<open>The mask rasterizer\<close>

text \<open>
  \<^verbatim>\<open>rasterio.features.rasterize(shapes, out_shape, transform, fill=0, all_touched=True)\<close>
  with every shape burnt as 1, read as booleans: a pixel is set when the library's test
  \<open>all_touched\<close> holds of its footprint and one of the shapes. The call raises when the
  transform cannot be inverted, as with a cell size of zero.
\<close>

fun invertible :: "affine \<Rightarrow> bool" where
  "invertible (Affine a b c d e f) = (a * e - b * d \<noteq> 0)"

definition rasterize :: "'g geometry \<Rightarrow> 'g list \<Rightarrow> nat \<times> nat \<Rightarrow> affine \<Rightarrow> error + bool array2" where
  "rasterize G shapes out_shape T =
     (if invertible T then
        Inr (map (\<lambda>i. map (\<lambda>j. list_ex (all_touched G (pixel_box T i j)) shapes)
                        [0..<snd out_shape])
               [0..<fst out_shape])
      else Inl GeotransformError)"

definition create_polygon_mask :: "'g geometry \<Rightarrow> 'g list \<Rightarrow> dataset \<Rightarrow> error + bool array2" where
  "create_polygon_mask G polygons ds =
     (let lons = longitude ds; lats = latitude ds in
      case grid_transform lons lats of
        Inl e \<Rightarrow> Inl e
      | Inr transform \<Rightarrow> rasterize G polygons (length lats, length lons) transform)"

text \<open>
  The footprint of the dataset's cell \<open>(i, j)\<close>, the square around its coordinates
  \<open>(lats[i], lons[j])\<close>, as \<^verbatim>\<open>create_vector_grid\<close> builds it.
\<close>

definition cell_footprint :: "rat list \<Rightarrow> rat list \<Rightarrow> nat \<Rightarrow> nat \<Rightarrow> box" where
  "cell_footprint lons lats i j =
     (let res_lon = cell_res lons; res_lat = cell_res lats; lon = lons ! j; lat = lats ! i in
      Box (lon - res_lon / 2) (lat - res_lat / 2) (lon + res_lon / 2) (lat + res_lat / 2))"


section \<open>The grid aligner\<close>

text \<open>The remainder of Python and NumPy on floats: its sign is the divisor's.\<close>

definition pymod :: "rat \<Rightarrow> rat \<Rightarrow> rat" where
  "pymod x m = x - m * of_int \<lfloor>x / m\<rfloor>"

text \<open>\<^verbatim>\<open>((ds.longitude + 180) % 360) - 180\<close>\<close>

definition wrap_longitude :: "rat \<Rightarrow> rat" where
  "wrap_longitude lon = pymod (lon + 180) 360 - 180"

text \<open>
  \<^verbatim>\<open>sortby\<close> of xarray sorts the indices of an axis by the coordinate's values with
  a stable sort, and selects the coordinate and every variable at these indices.
\<close>

definition sort_order :: "rat list \<Rightarrow> nat list" where
  "sort_order ks = map snd (sort_key fst (zip ks [0..<length ks]))"

definition isel_longitude :: "nat list \<Rightarrow> dataset \<Rightarrow> dataset" where
  "isel_longitude p ds =
     ds\<lparr>longitude := map ((!) (longitude ds)) p,
        data_vars := map (\<lambda>(name, slices). (name, map (map (\<lambda>row. map ((!) row) p)) slices))
                       (data_vars ds)\<rparr>"

definition isel_latitude :: "nat list \<Rightarrow> dataset \<Rightarrow> dataset" where
  "isel_latitude p ds =
     ds\<lparr>latitude := map ((!) (latitude ds)) p,
        data_vars := map (\<lambda>(name, slices). (name, map (\<lambda>a. map ((!) a) p) slices))
                       (data_vars ds)\<rparr>"

definition sortby_longitude :: "dataset \<Rightarrow> dataset" where
  "sortby_longitude ds = isel_longitude (sort_order (longitude ds)) ds"

definition sortby_latitude :: "dataset \<Rightarrow> dataset" where
  "sortby_latitude ds = isel_latitude (sort_order (latitude ds)) ds"

text \<open>
  Lines 126 to 129 of \<^verbatim>\<open>main\<close>; \<^verbatim>\<open>ds.longitude.max()\<close> raises on an empty axis.
\<close>

definition align_longitude :: "dataset \<Rightarrow> error + dataset" where
  "align_longitude ds =
     (if longitude ds = [] then Inl ValueError
      else if Max (set (longitude ds)) > 180
        then Inr (sortby_longitude (ds\<lparr>longitude := map wrap_longitude (longitude ds)\<rparr>))
        else Inr ds)"

text \<open>Lines 132 and 133; \<^verbatim>\<open>ds.latitude[0]\<close> raises on an empty axis.\<close>

definition align_latitude :: "dataset \<Rightarrow> error + dataset" where
  "align_latitude ds =
     (if latitude ds = [] then Inl IndexError
      else if hd (latitude ds) > last (latitude ds) then Inr (sortby_latitude ds)
      else Inr ds)"

definition align_grid :: "dataset \<Rightarrow> error + dataset" where
  "align_grid ds = (case align_longitude ds of Inl e \<Rightarrow> Inl e | Inr ds1 \<Rightarrow> align_latitude ds1)"

section \<open>Strings: arguments, timestamps and paths\<close>

text \<open>\<^verbatim>\<open>s.split(",")\<close>\<close>

fun split_comma :: "string \<Rightarrow> string list" where
  "split_comma [] = [[]]"
| "split_comma (c # cs) =
     (if c = CHR '','' then [] # split_comma cs
      else (case split_comma cs of [] \<Rightarrow> [[c]] | w # ws \<Rightarrow> (c # w) # ws))"

text \<open>
  \<^verbatim>\<open>int(h)\<close> on a string of ASCII characters: white space around the number is
  dropped, one sign is allowed, and the digits may be separated by single underscores.
  \<open>None\<close> stands for the \<^verbatim>\<open>ValueError\<close>.
\<close>

definition digit_value :: "char \<Rightarrow> nat option" where
  "digit_value c = map_of (zip ''0123456789'' [0..<10]) c"

definition is_space :: "char \<Rightarrow> bool" where
  "is_space c = (c \<in> set [CHR '' '', CHR 0x09, CHR 0x0A, CHR 0x0B, CHR 0x0C, CHR 0x0D])"

definition strip :: "string \<Rightarrow> string" where
  "strip s = rev (dropWhile is_space (rev (dropWhile is_space s)))"

text \<open>The digits after the first one; \<open>acc\<close> is the value read so far.\<close>

fun more_digits :: "nat \<Rightarrow> string \<Rightarrow> nat option" where
  "more_digits acc [] = Some acc"
| "more_digits acc [c] = (case digit_value c of None \<Rightarrow> None | Some d \<Rightarrow> Some (10 * acc + d))"
| "more_digits acc (c # c' # cs) =
     (if c = CHR ''_'' then
        (case digit_value c' of None \<Rightarrow> None | Some d \<Rightarrow> more_digits (10 * acc + d) cs)
      else (case digit_value c of None \<Rightarrow> None | Some d \<Rightarrow> more_digits (10 * acc + d) (c' # cs)))"

definition digits :: "string \<Rightarrow> nat option" where
  "digits s = (case s of [] \<Rightarrow> None
               | c # cs \<Rightarrow> (case digit_value c of None \<Rightarrow> None | Some d \<Rightarrow> more_digits d cs))"

definition py_int :: "string \<Rightarrow> int option" where
  "py_int s =
     (case strip s of
        [] \<Rightarrow> None
      | c # cs \<Rightarrow>
          if c = CHR ''-'' then map_option (\<lambda>n. - int n) (digits cs)
          else if c = CHR ''+'' then map_option int (digits cs)
          else map_option int (digits (c # cs)))"

text \<open>\<^verbatim>\<open>[int(h) for h in hours]\<close>: the first string that is no integer raises.\<close>

fun ints_of :: "string list \<Rightarrow> error + int list" where
  "ints_of [] = Inr []"
| "ints_of (h # hs) =
     (case py_int h of
        None \<Rightarrow> Inl ValueError
      | Some n \<Rightarrow> (case ints_of hs of Inl e \<Rightarrow> Inl e | Inr ns \<Rightarrow> Inr (n # ns)))"

text \<open>
  \<^verbatim>\<open>strftime\<close> with the formats \<^verbatim>\<open>%Y%m%d_%H%M\<close> and \<^verbatim>\<open>%Y%m%d\<close>, for the
  four-digit years a timestamp of pandas has.
\<close>

definition digit :: "nat \<Rightarrow> char" where
  "digit n = ''0123456789'' ! (n mod 10)"

definition dec2 :: "nat \<Rightarrow> string" where
  "dec2 n = [digit (n div 10), digit n]"

definition dec4 :: "nat \<Rightarrow> string" where
  "dec4 n = [digit (n div 1000), digit (n div 100), digit (n div 10), digit n]"

definition strftime_Ymd :: "timestamp \<Rightarrow> string" where
  "strftime_Ymd t = dec4 (year t) @ dec2 (month t) @ dec2 (day t)"

definition strftime_Ymd_HM :: "timestamp \<Rightarrow> string" where
  "strftime_Ymd_HM t = strftime_Ymd t @ ''_'' @ dec2 (hour t) @ dec2 (minute t)"

text \<open>\<^verbatim>\<open>os.path.join(a, b)\<close> of two components, on POSIX.\<close>

definition os_path_join :: "string \<Rightarrow> string \<Rightarrow> string" where
  "os_path_join a b =
     (if b \<noteq> [] \<and> hd b = CHR ''/'' then b
      else if a = [] \<or> last a = CHR ''/'' then a @ b
      else a @ ''/'' @ b)"


section \<open>Output of a run\<close>

text \<open>
  The lines the worker prints, one constructor per \<^verbatim>\<open>print\<close> statement, with the
  values the line is formatted from.
\<close>

datatype event =
    Loading_polygons
  | Requesting string string
  | Area rat rat rat rat
  | Variables "string list"
  | Download_done
  | Available_variables "string list"
  | Generating_mask
  | Mask_generated nat nat
  | Variable_not_found string
  | Processing_variable string string
  | RASTER_PATH string
  | Computing_intersections
  | No_valid_intersections
  | VECTOR_PATH string
  | Overviews_failed
  | Gdal_nodata_failed
  | Finished_vector nat
  | Finished_raster nat
  | Processing_error error
  | Temp_removed string

text \<open>
  What the libraries do to the files is a parameter too: whether
  \<^verbatim>\<open>build_overviews\<close> raises on a file, what the pass of GDAL over it meets, and
  whether the temporary NetCDF file is there and can be removed.
\<close>

datatype gdal_outcome = Gdal_ok | Gdal_open_none | Gdal_raises

record io_env =
  build_overviews_raises :: "string \<Rightarrow> bool"
  gdal_update :: "string \<Rightarrow> gdal_outcome"
  temp_removed :: "string \<Rightarrow> bool"

text \<open>
  The GeoTIFF \<^verbatim>\<open>save_raster\<close> writes: the profile given to \<^verbatim>\<open>rasterio.open\<close>,
  the band, the NoData value set on the band, the overview levels built, the tag and the
  description of the band, and the NoData value the pass of GDAL sets, if it does.
\<close>

record raster =
  driver :: string
  height :: nat
  width :: nat
  band_count :: nat
  dtype :: string
  transform :: affine
  crs :: string
  compress :: string
  nodata :: rat
  tiled :: bool
  blockxsize :: "nat option"
  blockysize :: "nat option"
  band :: "rat array2"
  band_nodata :: rat
  overviews :: "nat list"
  area_or_point :: string
  band_description :: string
  gdal_nodata :: "rat option"

text \<open>The GeoJSON layer \<^verbatim>\<open>create_vector_grid\<close> writes for one timestamp.\<close>

record 'g vector_layer =
  geometry_column :: "'g list"
  value_name :: string
  value_column :: "fval list"
  lat_center :: "rat list"
  lon_center :: "rat list"

datatype 'g artifact = Raster_file raster | Vector_file "'g vector_layer"

record 'g run_state =
  printed :: "event list"
  files :: "(string \<times> 'g artifact) list"
  raster_count :: nat
  vector_count :: nat

definition print :: "event \<Rightarrow> 'g run_state \<Rightarrow> 'g run_state" where
  "print e st = st\<lparr>printed := printed st @ [e]\<rparr>"

section \<open>The raster emitter\<close>

definition nodata_value :: rat where
  "nodata_value = - 9999"

definition wkt_4326 :: string where
  \<open>wkt_4326 = ''GEOGCS["WGS 84",DATUM["WGS_1984",SPHEROID["WGS 84",6378137,298.257223563]],PRIMEM["Greenwich",0],UNIT["degree",0.0174532925199433]]''\<close>

text \<open>The levels \<^verbatim>\<open>save_raster\<close> collects in \<^verbatim>\<open>overview_levels\<close>.\<close>

definition overview_levels :: "nat \<Rightarrow> nat \<Rightarrow> nat list" where
  "overview_levels h w =
     (let max_overview_level = min h w div 2 in
      filter (\<lambda>level. level < max_overview_level) [2, 4, 8, 16, 32])"

text \<open>
  \<^verbatim>\<open>save_raster\<close> returns the file written and the warnings printed. The cast of the
  band to 32-bit floats is not modelled.
\<close>

definition save_raster ::
  "io_env \<Rightarrow> fval array2 \<Rightarrow> string \<Rightarrow> rat list \<Rightarrow> rat list \<Rightarrow> error + raster \<times> event list"
where
  "save_raster io data output_path lons lats =
     (let h = length data; w = ncols data in
      case grid_transform lons lats of
        Inl e \<Rightarrow> Inl e
      | Inr T \<Rightarrow>
          let output_data = map (map (\<lambda>x. case x of None \<Rightarrow> nodata_value | Some v \<Rightarrow> v)) data;
              levels = overview_levels h w;
              wanted = (levels \<noteq> [] \<and> min h w > 16);
              built = (if wanted \<and> \<not> build_overviews_raises io output_path then levels else []);
              warn1 = (if wanted \<and> build_overviews_raises io output_path then [Overviews_failed] else []);
              warn2 = (if gdal_update io output_path = Gdal_raises then [Gdal_nodata_failed] else [])
          in Inr
            (\<lparr>driver = ''GTiff'', height = h, width = w, band_count = 1, dtype = ''float32'',
              transform = T, crs = wkt_4326, compress = ''lzw'',
              nodata = nodata_value,
              tiled = (min h w \<ge> 256),
              blockxsize = (if min h w \<ge> 256 then Some (min 256 w) else None),
              blockysize = (if min h w \<ge> 256 then Some (min 256 h) else None),
              band = output_data,
              band_nodata = nodata_value,
              overviews = built,
              area_or_point = ''Area'',
              band_description = ''ERA5-Land Data'',
              gdal_nodata = (if gdal_update io output_path = Gdal_ok then Some nodata_value else None)\<rparr>,
             warn1 @ warn2))"

section \<open>Reading the dataset\<close>

text \<open>
  \<^verbatim>\<open>time_coord = 'time' if 'time' in ds.coords else 'valid_time'\<close>, and the values
  of \<^verbatim>\<open>ds[time_coord]\<close>, which raises when the dataset has neither.
\<close>

definition time_values :: "dataset \<Rightarrow> error + timestamp list" where
  "time_values ds =
     (case coord_time ds of
        Some ts \<Rightarrow> Inr ts
      | None \<Rightarrow> (case coord_valid_time ds of Some ts \<Rightarrow> Inr ts | None \<Rightarrow> Inl KeyError))"

text \<open>\<^verbatim>\<open>ds[var].isel({time_coord: time_idx}).values\<close>\<close>

definition isel_time :: "dataset \<Rightarrow> string \<Rightarrow> nat \<Rightarrow> error + fval array2" where
  "isel_time ds var time_idx =
     (case map_of (data_vars ds) var of
        None \<Rightarrow> Inl KeyError
      | Some slices \<Rightarrow> if time_idx < length slices then Inr (slices ! time_idx) else Inl IndexError)"

text \<open>\<^verbatim>\<open>data[i, j]\<close>\<close>

definition at2 :: "'a array2 \<Rightarrow> nat \<Rightarrow> nat \<Rightarrow> error + 'a" where
  "at2 a i j = (if i < length a \<and> j < length (a ! i) then Inr (a ! i ! j) else Inl IndexError)"

text \<open>A list comprehension whose element may raise.\<close>

fun collect :: "('a \<Rightarrow> error + 'b) \<Rightarrow> 'a list \<Rightarrow> error + 'b list" where
  "collect f [] = Inr []"
| "collect f (x # xs) =
     (case f x of
        Inl e \<Rightarrow> Inl e
      | Inr y \<Rightarrow> (case collect f xs of Inl e \<Rightarrow> Inl e | Inr ys \<Rightarrow> Inr (y # ys)))"

text \<open>\<^verbatim>\<open>time_dt.hour in selected_hours_ints\<close>\<close>

definition hour_selected :: "int list \<Rightarrow> timestamp \<Rightarrow> bool" where
  "hour_selected selected_hours_ints time_dt = (int (hour time_dt) \<in> set selected_hours_ints)"


section \<open>The vector grid emitter\<close>

text \<open>
  The first loop of \<^verbatim>\<open>create_vector_grid\<close>: the cells kept, in row-major order,
  each with its clipped geometry (\<^verbatim>\<open>pixel_geometries\<close>) and its index
  (\<^verbatim>\<open>pixel_coords\<close>).
\<close>

definition pixel_cells :: "'g geometry \<Rightarrow> rat list \<Rightarrow> rat list \<Rightarrow> 'g \<Rightarrow> ('g \<times> nat \<times> nat) list" where
  "pixel_cells G lons lats target_geometry =
     concat (map (\<lambda>i. concat (map (\<lambda>j.
         let pixel_poly = cell_footprint lons lats i j in
         if intersects G pixel_poly target_geometry then
           (let clipped_geom = intersection G pixel_poly target_geometry in
            if \<not> is_empty G clipped_geom \<and> area G clipped_geom > 0 then [(clipped_geom, i, j)]
            else [])
         else [])
       [0..<length lons])) [0..<length lats])"

text \<open>
  The second loop, over \<^verbatim>\<open>enumerate(ds[time_coord].values)\<close>: one layer per selected
  timestamp. The result is the exception raised, if any, the state, and
  \<^verbatim>\<open>created_layers\<close>.
\<close>

fun vector_layers ::
  "dataset \<Rightarrow> ('g \<times> nat \<times> nat) list \<Rightarrow> string \<Rightarrow> string \<Rightarrow> int list \<Rightarrow> string \<Rightarrow>
   (nat \<times> timestamp) list \<Rightarrow> 'g run_state \<Rightarrow> string list \<Rightarrow> error option \<times> 'g run_state \<times> string list"
where
  "vector_layers ds cells var_short var_long selected_hours_ints output_dir [] st created =
     (None, st, created)"
| "vector_layers ds cells var_short var_long selected_hours_ints output_dir
     ((time_idx, time_dt) # rest) st created =
     (if hour_selected selected_hours_ints time_dt then
        (case isel_time ds var_short time_idx of
           Inl e \<Rightarrow> (Some e, st, created)
         | Inr data \<Rightarrow>
            (case collect (\<lambda>(g, i, j). at2 data i j) cells of
               Inl e \<Rightarrow> (Some e, st, created)
             | Inr pixel_values \<Rightarrow>
                 let gdf = \<lparr>geometry_column = map fst cells,
                            value_name = var_long,
                            value_column = pixel_values,
                            lat_center = map (\<lambda>(g, i, j). latitude ds ! i) cells,
                            lon_center = map (\<lambda>(g, i, j). longitude ds ! j) cells\<rparr>;
                     output_filename = var_long @ ''_'' @ strftime_Ymd_HM time_dt @ ''_grid.geojson'';
                     output_path = os_path_join output_dir output_filename
                 in vector_layers ds cells var_short var_long selected_hours_ints output_dir rest
                      (print (VECTOR_PATH output_path)
                         (st\<lparr>files := files st @ [(output_path, Vector_file gdf)]\<rparr>))
                      (created @ [output_path])))
      else vector_layers ds cells var_short var_long selected_hours_ints output_dir rest st created)"

definition create_vector_grid ::
  "'g geometry \<Rightarrow> dataset \<Rightarrow> 'g list \<Rightarrow> string \<Rightarrow> string \<Rightarrow> int list \<Rightarrow> string \<Rightarrow>
   'g run_state \<Rightarrow> error option \<times> 'g run_state \<times> string list"
where
  "create_vector_grid G ds polygons var_short var_long selected_hours_ints output_dir st =
     (let lons = longitude ds; lats = latitude ds;
          target_geometry = union_all G polygons;
          st1 = print Computing_intersections st;
          cells = pixel_cells G lons lats target_geometry
      in if cells = [] then (None, print No_valid_intersections st1, [])
         else
           (case time_values ds of
              Inl e \<Rightarrow> (Some e, st1, [])
            | Inr time_vals \<Rightarrow>
                vector_layers ds cells var_short var_long selected_hours_ints output_dir
                  (enumerate 0 time_vals) st1 []))"

section \<open>The raster branch\<close>

text \<open>
  The loop of \<^verbatim>\<open>main\<close> over \<^verbatim>\<open>enumerate(ds[time_coord].values)\<close> in raster mode:
  clip, mask, save, report.
\<close>

fun raster_loop ::
  "io_env \<Rightarrow> dataset \<Rightarrow> bool array2 \<Rightarrow> string \<Rightarrow> string \<Rightarrow> int list \<Rightarrow> string \<Rightarrow>
   (nat \<times> timestamp) list \<Rightarrow> 'g run_state \<Rightarrow> error option \<times> 'g run_state"
where
  "raster_loop io ds m var_to_use var_for_filename selected_hours_ints out [] st = (None, st)"
| "raster_loop io ds m var_to_use var_for_filename selected_hours_ints out
     ((time_idx, time_dt) # rest) st =
     (if hour_selected selected_hours_ints time_dt then
        (case isel_time ds var_to_use time_idx of
           Inl e \<Rightarrow> (Some e, st)
         | Inr data \<Rightarrow>
            (case clip_to_polygon_bounds data m (longitude ds) (latitude ds) of
               (clipped_data, clipped_mask, clipped_lons, clipped_lats) \<Rightarrow>
                 let masked_data = where_nan clipped_mask clipped_data;
                     raster_filename = var_for_filename @ ''_'' @ strftime_Ymd_HM time_dt @ ''.tif'';
                     raster_path = os_path_join out raster_filename
                 in (case save_raster io masked_data raster_path clipped_lons clipped_lats of
                       Inl e \<Rightarrow> (Some e, st)
                     | Inr (r, warnings) \<Rightarrow>
                         raster_loop io ds m var_to_use var_for_filename selected_hours_ints out rest
                           (print (RASTER_PATH raster_path)
                              (st\<lparr>printed := printed st @ warnings,
                                  files := files st @ [(raster_path, Raster_file r)],
                                  raster_count := raster_count st + 1\<rparr>)))))
      else raster_loop io ds m var_to_use var_for_filename selected_hours_ints out rest st)"

section \<open>The orchestrator\<close>

datatype output_format = Raster | Vector

record args =
  polygons_arg :: string
  start_arg :: string
  end_arg :: string
  hours_arg :: string
  vars_arg :: string
  out_arg :: string
  resolution :: rat
  format_arg :: output_format

text \<open>
  The name under which a requested variable is read: its short name if the dataset has
  it, else its long name if the dataset has that, else none.
\<close>

definition var_to_use :: "dataset \<Rightarrow> string \<Rightarrow> string option" where
  "var_to_use ds var_long_name =
     (if var_short_name var_long_name \<in> set (map fst (data_vars ds)) then Some (var_short_name var_long_name)
      else if var_long_name \<in> set (map fst (data_vars ds)) then Some var_long_name
      else None)"

text \<open>The loop of \<^verbatim>\<open>main\<close> over the requested variables.\<close>

fun variables_loop ::
  "'g geometry \<Rightarrow> io_env \<Rightarrow> output_format \<Rightarrow> string \<Rightarrow> 'g list \<Rightarrow> dataset \<Rightarrow> bool array2 \<Rightarrow> int list \<Rightarrow>
   string list \<Rightarrow> 'g run_state \<Rightarrow> error option \<times> 'g run_state"
where
  "variables_loop G io fmt out polygons ds m selected_hours_ints [] st = (None, st)"
| "variables_loop G io fmt out polygons ds m selected_hours_ints (var_long_name # rest) st =
     (case var_to_use ds var_long_name of
        None \<Rightarrow>
          variables_loop G io fmt out polygons ds m selected_hours_ints rest
            (print (Variable_not_found var_long_name) st)
      | Some v \<Rightarrow>
          let st1 = print (Processing_variable v var_long_name) st in
          if fmt = Vector then
            (case create_vector_grid G ds polygons v var_long_name selected_hours_ints out st1 of
               (Some e, st2, created) \<Rightarrow> (Some e, st2)
             | (None, st2, created) \<Rightarrow>
                 variables_loop G io fmt out polygons ds m selected_hours_ints rest
                   (st2\<lparr>vector_count := vector_count st2 + length created\<rparr>))
          else
            (case time_values ds of
               Inl e \<Rightarrow> (Some e, st1)
             | Inr time_vals \<Rightarrow>
                (case raster_loop io ds m v var_long_name selected_hours_ints out
                        (enumerate 0 time_vals) st1 of
                   (Some e, st2) \<Rightarrow> (Some e, st2)
                 | (None, st2) \<Rightarrow>
                     variables_loop G io fmt out polygons ds m selected_hours_ints rest st2)))"

text \<open>
  The body of the \<^verbatim>\<open>try\<close> statement of \<^verbatim>\<open>main\<close>, from the opened dataset on: the
  exception that leaves it, if any, and the state.
\<close>

definition process ::
  "'g geometry \<Rightarrow> io_env \<Rightarrow> output_format \<Rightarrow> string \<Rightarrow> 'g list \<Rightarrow> string list \<Rightarrow> string list \<Rightarrow>
   dataset \<Rightarrow> 'g run_state \<Rightarrow> error option \<times> 'g run_state"
where
  "process G io fmt out polygons hours variables ds0 st =
     (let st1 = print (Available_variables (map fst (data_vars ds0))) st in
      case align_grid ds0 of
        Inl e \<Rightarrow> (Some e, st1)
      | Inr ds \<Rightarrow>
         (let st2 = print Generating_mask st1 in
          case create_polygon_mask G polygons ds of
            Inl e \<Rightarrow> (Some e, st2)
          | Inr m \<Rightarrow>
             (let total_pixels = length m * ncols m;
                  polygon_pixels = length (filter id (concat m));
                  st3 = print (Mask_generated polygon_pixels total_pixels) st2 in
              case ints_of hours of
                Inl e \<Rightarrow> (Some e, st3)
              | Inr selected_hours_ints \<Rightarrow>
                 (case variables_loop G io fmt out polygons ds m selected_hours_ints variables st3 of
                    (Some e, st4) \<Rightarrow> (Some e, st4)
                  | (None, st4) \<Rightarrow>
                      (None,
                       print (if fmt = Vector then Finished_vector (vector_count st4)
                              else Finished_raster (raster_count st4)) st4)))))"


text \<open>
  What \<^verbatim>\<open>main\<close> takes from outside: the geometry library, the files, the polygons
  read from a path (in EPSG:4326), the parsing of a date, the years, months and days of
  the date range, and the dataset opened from the file retrieved for a request, or the
  exception \<^verbatim>\<open>xr.open_dataset\<close> raises. A failure before the \<^verbatim>\<open>try\<close> statement
  (reading the polygons, the retrieval itself) is not modelled.
\<close>

record request =
  req_variable :: "string list"
  req_year :: "string set"
  req_month :: "string set"
  req_day :: "string set"
  req_time :: "string list"
  req_area :: "rat list"

record 'g world =
  geom :: "'g geometry"
  io :: io_env
  read_file :: "string \<Rightarrow> 'g list"
  fromisoformat :: "string \<Rightarrow> timestamp"
  date_parts :: "timestamp \<Rightarrow> timestamp \<Rightarrow> string set \<times> string set \<times> string set"
  open_retrieved :: "request \<Rightarrow> string \<Rightarrow> error + dataset"

text \<open>The exit status of the process: 1 when an exception leaves \<^verbatim>\<open>main\<close>.\<close>

definition exit_status :: "error option \<Rightarrow> nat" where
  "exit_status err = (if err = None then 0 else 1)"

definition build_request :: "'g world \<Rightarrow> args \<Rightarrow> 'g list \<Rightarrow> request" where
  "build_request W a polygons =
     (let start_dt = fromisoformat W (start_arg a);
          end_dt = fromisoformat W (end_arg a);
          hours = split_comma (hours_arg a);
          variables = split_comma (vars_arg a)
      in case date_parts W start_dt end_dt of (years, months, days) \<Rightarrow>
         (case total_bounds (geom W) polygons of (bminx, bminy, bmaxx, bmaxy) \<Rightarrow>
            let buffer = 1 / 5 in
            \<lparr>req_variable = variables, req_year = years, req_month = months, req_day = days,
             req_time = hours,
             req_area = [bmaxy + buffer, bminx - buffer, bminy - buffer, bmaxx + buffer]\<rparr>))"

definition main :: "'g world \<Rightarrow> args \<Rightarrow> nat \<times> 'g run_state" where
  "main W a =
     (let polygons = read_file W (polygons_arg a);
          start_dt = fromisoformat W (start_arg a);
          end_dt = fromisoformat W (end_arg a);
          hours = split_comma (hours_arg a);
          variables = split_comma (vars_arg a);
          req = build_request W a polygons;
          date_suffix = strftime_Ymd start_dt @ ''_'' @ strftime_Ymd end_dt;
          nc_path = os_path_join (out_arg a) (''temp_era5_polygons_'' @ date_suffix @ ''.nc'');
          st0 = \<lparr>printed =
                   [Loading_polygons, Requesting (start_arg a) (end_arg a),
                    Area (req_area req ! 0) (req_area req ! 1) (req_area req ! 2) (req_area req ! 3),
                    Variables variables, Download_done],
                 files = [], raster_count = 0, vector_count = 0\<rparr>
      in case (case open_retrieved W req nc_path of
                 Inl e \<Rightarrow> (Some e, st0)
               | Inr ds0 \<Rightarrow> process (geom W) (io W) (format_arg a) (out_arg a) polygons hours variables ds0 st0)
         of (err, st1) \<Rightarrow>
           let st2 = (case err of None \<Rightarrow> st1 | Some e \<Rightarrow> print (Processing_error e) st1);
               st3 = (if temp_removed (io W) nc_path then print (Temp_removed nc_path) st2 else st2)
           in (exit_status err, st3))"

section \<open>Well-formed datasets\<close>

text \<open>
  Every variable of a dataset has one slice per timestamp, each of the shape of the grid,
  and the axes are not empty.
\<close>

definition wf_dataset :: "dataset \<Rightarrow> bool" where
  "wf_dataset ds =
     (longitude ds \<noteq> [] \<and> latitude ds \<noteq> [] \<and>
      (case time_values ds of
         Inl e \<Rightarrow> False
       | Inr ts \<Rightarrow>
           list_all (\<lambda>(name, slices). length slices = length ts \<and>
                       list_all (rect (length (latitude ds)) (length (longitude ds))) slices)
             (data_vars ds)))"

text \<open>
  An axis of uniform spacing: the \<open>k\<close>-th value is the first one plus \<open>k\<close> cells. The
  cell size is an absolute value, so such an axis ascends.
\<close>

definition uniform :: "rat list \<Rightarrow> bool" where
  "uniform xs = (xs = map (\<lambda>k. hd xs + of_nat k * cell_res xs) [0..<length xs])"

section \<open>A geometry of boxes\<close>

text \<open>
  For evaluation at concrete inputs: regions that are unions of closed boxes with
  disjoint interiors, given as lists. The area of the union is then the sum of the areas.
  In this sample library a box marks a pixel when the two overlap in more than a part of
  their boundaries.
\<close>

definition box_meets :: "box \<Rightarrow> box \<Rightarrow> bool" where
  "box_meets p q = (minx p \<le> maxx q \<and> minx q \<le> maxx p \<and> miny p \<le> maxy q \<and> miny q \<le> maxy p)"

definition box_overlaps :: "box \<Rightarrow> box \<Rightarrow> bool" where
  "box_overlaps p q = (minx p < maxx q \<and> minx q < maxx p \<and> miny p < maxy q \<and> miny q < maxy p)"

definition box_inter :: "box \<Rightarrow> box \<Rightarrow> box" where
  "box_inter p q = Box (max (minx p) (minx q)) (max (miny p) (miny q))
                       (min (maxx p) (maxx q)) (min (maxy p) (maxy q))"

definition box_area :: "box \<Rightarrow> rat" where
  "box_area p = (maxx p - minx p) * (maxy p - miny p)"

definition boxes :: "box list geometry" where
  "boxes =
     \<lparr>intersects = (\<lambda>p g. list_ex (box_meets p) g),
      intersection = (\<lambda>p g. map (box_inter p) (filter (box_meets p) g)),
      is_empty = (\<lambda>g. g = []),
      area = (\<lambda>g. sum_list (map box_area g)),
      union_all = concat,
      total_bounds = (\<lambda>gs. (Min (set (map minx (concat gs))), Min (set (map miny (concat gs))),
                            Max (set (map maxx (concat gs))), Max (set (map maxy (concat gs))))),
      all_touched = (\<lambda>p g. list_ex (box_overlaps p) g)\<rparr>"

section \<open>Increments of the output\<close>

text \<open>
  A run only adds to its output: lines to those printed, files to those written, and
  numbers to the two counters. \<open>add_state st d\<close> is the state \<open>st\<close> after the
  additions \<open>d\<close>.
\<close>

definition empty_state :: "'g run_state" where
  "empty_state = \<lparr>printed = [], files = [], raster_count = 0, vector_count = 0\<rparr>"

definition add_state :: "'g run_state \<Rightarrow> 'g run_state \<Rightarrow> 'g run_state" where
  "add_state st d =
     st\<lparr>printed := printed st @ printed d, files := files st @ files d,
        raster_count := raster_count st + raster_count d,
        vector_count := vector_count st + vector_count d\<rparr>"

definition event_delta :: "event \<Rightarrow> 'g run_state" where
  "event_delta e = \<lparr>printed = [e], files = [], raster_count = 0, vector_count = 0\<rparr>"

definition raster_delta :: "string \<Rightarrow> raster \<Rightarrow> event list \<Rightarrow> 'g run_state" where
  "raster_delta p r warnings =
     \<lparr>printed = warnings @ [RASTER_PATH p], files = [(p, Raster_file r)],
      raster_count = 1, vector_count = 0\<rparr>"

definition vector_delta :: "string \<Rightarrow> 'g vector_layer \<Rightarrow> 'g run_state" where
  "vector_delta p gdf =
     \<lparr>printed = [VECTOR_PATH p], files = [(p, Vector_file gdf)],
      raster_count = 0, vector_count = 0\<rparr>"

text \<open>
  Two runs have the same output but for the line \<open>w\<close>: the same exception or none,
  the same files and counters, the same lines printed once \<open>w\<close> is left out; and the
  first, when it ends without an exception, has printed \<open>w\<close>.
\<close>

definition same_output :: "event \<Rightarrow> error option \<times> 'g run_state \<Rightarrow> error option \<times> 'g run_state \<Rightarrow> bool" where
  "same_output w run ref =
     (fst run = fst ref
      \<and> files (snd run) = files (snd ref)
      \<and> raster_count (snd run) = raster_count (snd ref)
      \<and> vector_count (snd run) = vector_count (snd ref)
      \<and> filter (\<lambda>e. e \<noteq> w) (printed (snd run)) = filter (\<lambda>e. e \<noteq> w) (printed (snd ref))
      \<and> (fst run = None \<longrightarrow> w \<in> set (printed (snd run))))"

text \<open>The paths of the two kinds of artifacts.\<close>

definition raster_path :: "string \<Rightarrow> string \<Rightarrow> timestamp \<Rightarrow> string" where
  "raster_path out var time_dt = os_path_join out (var @ ''_'' @ strftime_Ymd_HM time_dt @ ''.tif'')"

definition vector_path :: "string \<Rightarrow> string \<Rightarrow> timestamp \<Rightarrow> string" where
  "vector_path out var time_dt =
     os_path_join out (var @ ''_'' @ strftime_Ymd_HM time_dt @ ''_grid.geojson'')"


section \<open>Sample inputs\<close>

text \<open>Concrete inputs, for the evaluation of the model.\<close>

definition io_ok :: io_env where
  "io_ok = \<lparr>build_overviews_raises = (\<lambda>p. False), gdal_update = (\<lambda>p. Gdal_ok),
            temp_removed = (\<lambda>p. True)\<rparr>"

definition grid_0_360 :: dataset where
  "grid_0_360 = \<lparr>longitude = [0, 360], latitude = [0], coord_time = None,
                  coord_valid_time = None, data_vars = []\<rparr>"

definition grid_0_270 :: dataset where
  "grid_0_270 = \<lparr>longitude = [0, 90, 180, 270], latitude = [0], coord_time = None,
       coord_valid_time = Some [], data_vars = [(''t2m'', [[[Some 1, Some 2, Some 3, Some 4]]])]\<rparr>"

definition ts :: "nat \<Rightarrow> nat \<Rightarrow> nat \<Rightarrow> nat \<Rightarrow> timestamp" where
  "ts y mo d h = \<lparr>year = y, month = mo, day = d, hour = h, minute = 0\<rparr>"

definition era5_2x2 :: dataset where
  "era5_2x2 =
     \<lparr>longitude = [0, 1], latitude = [1, 0], coord_time = None,
      coord_valid_time = Some [ts 2024 1 1 0, ts 2024 1 1 6, ts 2024 1 1 12],
      data_vars =
        [(''t2m'', [[[Some 11, Some 12], [Some 13, Some 14]],
                    [[Some 21, Some 22], [Some 23, Some 24]],
                    [[Some 31, Some 32], [Some 33, None]]]),
         (''tp'', [[[Some 1, Some 2], [Some 3, Some 4]],
                   [[Some 5, Some 6], [Some 7, Some 8]],
                   [[Some 9, Some 10], [Some 11, Some 12]]])]\<rparr>"

definition south_west :: "box list" where
  "south_west = [Box (- 1 / 10) (- 1 / 10) (1 / 10) (1 / 10)]"

definition sample_world :: "box list world" where
  "sample_world =
     \<lparr>geom = boxes, io = io_ok, read_file = (\<lambda>p. [south_west]),
      fromisoformat = (\<lambda>s. ts 2024 1 1 0),
      date_parts = (\<lambda>a b. ({''2024''}, {''01''}, {''01''})),
      open_retrieved = (\<lambda>req path. Inr era5_2x2)\<rparr>"

definition sample_args :: args where
  "sample_args =
     \<lparr>polygons_arg = ''roi.shp'', start_arg = ''2024-01-01'', end_arg = ''2024-01-01'',
      hours_arg = ''00,12'', vars_arg = ''2m_temperature,foo'', out_arg = ''out'',
      resolution = 1 / 10, format_arg = Raster\<rparr>"

definition era5_2x2_aligned :: dataset where
  "era5_2x2_aligned =
     \<lparr>longitude = [0, 1], latitude = [0, 1], coord_time = None,
      coord_valid_time = Some [ts 2024 1 1 0, ts 2024 1 1 6, ts 2024 1 1 12],
      data_vars =
        [(''t2m'', [[[Some 13, Some 14], [Some 11, Some 12]],
                    [[Some 23, Some 24], [Some 21, Some 22]],
                    [[Some 33, None], [Some 31, Some 32]]]),
         (''tp'', [[[Some 3, Some 4], [Some 1, Some 2]],
                   [[Some 7, Some 8], [Some 5, Some 6]],
                   [[Some 11, Some 12], [Some 9, Some 10]]])]\<rparr>"

definition two_days_hourly :: "timestamp list" where
  "two_days_hourly = concat (map (\<lambda>d. map (ts 2024 1 d) [0..<24]) [1, 2])"

definition era5_two_days :: dataset where
  "era5_two_days =
     \<lparr>longitude = [0], latitude = [0], coord_time = None,
      coord_valid_time = Some two_days_hourly,
      data_vars = [(''t2m'', replicate 48 [[Some 1]])]\<rparr>"

definition far_away :: "box list" where
  "far_away = [Box 50 50 51 51]"



section \<open>Properties of the bounding clipper\<close>


lemma argmax_first:
  assumes "True \<in> set bs"
  shows "argmax bs < length bs" and "bs ! argmax bs" and "\<forall>i < argmax bs. \<not> bs ! i"
proof -
  have a: "argmax bs = length (takeWhile Not bs)" using assms by (simp add: argmax_def)
  have lt: "length (takeWhile Not bs) < length bs"
    using assms by (induction bs) auto
  show "argmax bs < length bs" using a lt by simp
  show "bs ! argmax bs" using nth_length_takeWhile[OF lt] a by simp
  show "\<forall>i < argmax bs. \<not> bs ! i"
  proof (intro allI impI)
    fix i assume "i < argmax bs"
    then have i: "i < length (takeWhile Not bs)" using a by simp
    then have "takeWhile Not bs ! i \<in> set (takeWhile Not bs)" by simp
    then have "\<not> takeWhile Not bs ! i" using set_takeWhileD[of "takeWhile Not bs ! i" Not bs] by blast
    then show "\<not> bs ! i" using takeWhile_nth[OF i] by simp
  qed
qed

lemma argmax_last:
  assumes "True \<in> set bs"
  shows "0 < length bs - argmax (rev bs)" and "length bs - argmax (rev bs) \<le> length bs"
    and "bs ! (length bs - argmax (rev bs) - 1)"
    and "\<forall>i. length bs - argmax (rev bs) \<le> i \<and> i < length bs \<longrightarrow> \<not> bs ! i"
proof -
  let ?k = "argmax (rev bs)"
  have t: "True \<in> set (rev bs)" using assms by simp
  have k: "?k < length bs" using argmax_first(1)[OF t] by simp
  show "0 < length bs - ?k" using k by simp
  show "length bs - ?k \<le> length bs" by simp
  have "rev bs ! ?k" using argmax_first(2)[OF t] .
  then show "bs ! (length bs - ?k - 1)" using k by (simp add: rev_nth)
  show "\<forall>i. length bs - ?k \<le> i \<and> i < length bs \<longrightarrow> \<not> bs ! i"
  proof (intro allI impI)
    fix i assume h: "length bs - ?k \<le> i \<and> i < length bs"
    then have lt: "length bs - 1 - i < ?k" using k by arith
    then have "\<not> rev bs ! (length bs - 1 - i)" using argmax_first(3)[OF t] by blast
    moreover have "rev bs ! (length bs - 1 - i) = bs ! i"
    proof -
      have e: "length bs - Suc (length bs - Suc i) = i" using h by arith
      have l: "length bs - 1 - i < length bs" using h by arith
      show ?thesis using rev_nth[OF l] e by simp
    qed
    ultimately show "\<not> bs ! i" by simp
  qed
qed


lemma rect_row: "rect h w m \<Longrightarrow> i < h \<Longrightarrow> length (m ! i) = w"
  by (simp add: rect_def list_all_length)

lemma rect_length: "rect h w m \<Longrightarrow> length m = h"
  by (simp add: rect_def)

lemma rect_ncols: "rect h w m \<Longrightarrow> 0 < h \<Longrightarrow> ncols m = w"
  by (cases m) (auto simp: rect_def ncols_def)

lemma True_in_set_nth: "(True \<in> set r) = (\<exists>j < length r. r ! j)"
  by (auto simp: in_set_conv_nth)

lemma any_axis1_nth: "i < length m \<Longrightarrow> any_axis1 m ! i = (\<exists>j < length (m ! i). m ! i ! j)"
  by (simp add: any_axis1_def True_in_set_nth)

lemma any_axis0_nth:
  "j < ncols m \<Longrightarrow> any_axis0 m ! j = (\<exists>i < length m. m ! i ! j)"
  by (simp add: any_axis0_def list_ex_length)

lemma has_true_iff: "has_true m = (\<exists>i < length m. \<exists>j < length (m ! i). m ! i ! j)"
  by (simp add: has_true_def list_ex_length True_in_set_nth)

lemma rows_flag:
  assumes "has_true m"
  shows "True \<in> set (any_axis1 m)"
proof -
  obtain i j where ij: "i < length m" "j < length (m ! i)" "m ! i ! j"
    using assms has_true_iff by blast
  then have "any_axis1 m ! i" by (auto simp: any_axis1_nth)
  moreover have "i < length (any_axis1 m)" using ij by (simp add: any_axis1_def)
  ultimately show ?thesis by (metis nth_mem)
qed

lemma cols_flag:
  assumes "rect h w m" "has_true m"
  shows "True \<in> set (any_axis0 m)"
proof -
  obtain i j where ij: "i < length m" "j < length (m ! i)" "m ! i ! j"
    using assms has_true_iff by blast
  have h: "0 < h" "i < h" using ij assms by (auto simp: rect_def)
  have jw: "j < ncols m" using ij rect_row[OF assms(1) h(2)] rect_ncols[OF assms(1) h(1)] by simp
  then have "any_axis0 m ! j" using ij by (auto simp: any_axis0_nth)
  moreover have "j < length (any_axis0 m)" using jw by (simp add: any_axis0_def)
  ultimately show ?thesis by (metis nth_mem)
qed

lemma no_flags:
  assumes "\<not> has_true m"
  shows "True \<notin> set (any_axis1 m)"
  using assms by (auto simp: has_true_def any_axis1_def list_ex_iff)

lemma row_bounds:
  assumes "has_true m"
  shows "row_start m < row_end m" and "row_end m \<le> length m"
    and "\<exists>j < length (m ! row_start m). m ! row_start m ! j"
    and "\<exists>j < length (m ! (row_end m - 1)). m ! (row_end m - 1) ! j"
    and "\<forall>i < length m. (\<exists>j < length (m ! i). m ! i ! j) \<longrightarrow> row_start m \<le> i \<and> i < row_end m"
proof -
  let ?R = "any_axis1 m"
  have t: "True \<in> set ?R" using rows_flag[OF assms] .
  have len: "length ?R = length m" by (simp add: any_axis1_def)
  note f = argmax_first[OF t] and l = argmax_last[OF t]
  have s: "row_start m < length m" using f(1) len by (simp add: row_start_def)
  have a: "\<forall>i. row_end m \<le> i \<and> i < length m \<longrightarrow> \<not> ?R ! i"
    using l(4) len by (simp add: row_end_def)
  have "\<not> row_end m \<le> row_start m"
  proof
    assume "row_end m \<le> row_start m"
    then have "\<not> ?R ! row_start m" using a s by blast
    then show False using f(2) by (simp add: row_start_def)
  qed
  then show "row_start m < row_end m" by simp
  show e: "row_end m \<le> length m" using l(2) len by (simp add: row_end_def)
  show "\<exists>j < length (m ! row_start m). m ! row_start m ! j"
    using f(2) s by (simp add: row_start_def any_axis1_nth)
  have "row_end m - 1 < length m" using e l(1) by (simp add: row_end_def)
  moreover have "?R ! (row_end m - 1)" using l(3) by (simp add: row_end_def)
  ultimately show "\<exists>j < length (m ! (row_end m - 1)). m ! (row_end m - 1) ! j"
    by (simp add: any_axis1_nth)
  show "\<forall>i < length m. (\<exists>j < length (m ! i). m ! i ! j) \<longrightarrow> row_start m \<le> i \<and> i < row_end m"
  proof (intro allI impI)
    fix i assume i: "i < length m" and "\<exists>j < length (m ! i). m ! i ! j"
    then have r: "?R ! i" by (simp add: any_axis1_nth)
    have "\<not> i < row_start m" using f(3) r by (auto simp: row_start_def)
    moreover have "\<not> row_end m \<le> i" using a r i by blast
    ultimately show "row_start m \<le> i \<and> i < row_end m" by simp
  qed
qed

lemma col_bounds:
  assumes "rect h w m" "has_true m"
  shows "col_start m < col_end m" and "col_end m \<le> w"
    and "\<exists>i < h. m ! i ! col_start m"
    and "\<exists>i < h. m ! i ! (col_end m - 1)"
    and "\<forall>j < w. (\<exists>i < h. m ! i ! j) \<longrightarrow> col_start m \<le> j \<and> j < col_end m"
proof -
  let ?C = "any_axis0 m"
  have hm: "length m = h" using assms(1) by (simp add: rect_def)
  have "0 < h" using assms(2) hm has_true_iff by fastforce
  then have nc: "ncols m = w" using rect_ncols[OF assms(1)] by simp
  have t: "True \<in> set ?C" using cols_flag[OF assms] .
  have len: "length ?C = w" using nc by (simp add: any_axis0_def)
  have nth: "\<And>j. j < w \<Longrightarrow> ?C ! j = (\<exists>i < h. m ! i ! j)"
    using any_axis0_nth nc hm by metis
  note f = argmax_first[OF t] and l = argmax_last[OF t]
  have s: "col_start m < w" using f(1) len by (simp add: col_start_def)
  have a: "\<forall>j. col_end m \<le> j \<and> j < w \<longrightarrow> \<not> ?C ! j"
    using l(4) len by (simp add: col_end_def)
  have "\<not> col_end m \<le> col_start m"
  proof
    assume "col_end m \<le> col_start m"
    then have "\<not> ?C ! col_start m" using a s by blast
    then show False using f(2) by (simp add: col_start_def)
  qed
  then show "col_start m < col_end m" by simp
  show e: "col_end m \<le> w" using l(2) len by (simp add: col_end_def)
  show "\<exists>i < h. m ! i ! col_start m"
    using f(2) s nth by (simp add: col_start_def)
  have "col_end m - 1 < w" using e l(1) len by (simp add: col_end_def)
  moreover have "?C ! (col_end m - 1)" using l(3) by (simp add: col_end_def)
  ultimately show "\<exists>i < h. m ! i ! (col_end m - 1)"
    using nth by blast
  show "\<forall>j < w. (\<exists>i < h. m ! i ! j) \<longrightarrow> col_start m \<le> j \<and> j < col_end m"
  proof (intro allI impI)
    fix j assume j: "j < w" and "\<exists>i < h. m ! i ! j"
    then have r: "?C ! j" using nth by blast
    have "\<not> j < col_start m" using f(3) r by (auto simp: col_start_def)
    moreover have "\<not> col_end m \<le> j" using a r j by blast
    ultimately show "col_start m \<le> j \<and> j < col_end m" by simp
  qed
qed


lemma clip_else:
  assumes "rect h w m" "has_true m"
  shows "clip_to_polygon_bounds data m lons lats =
     (slice2 (row_start m) (row_end m) (col_start m) (col_end m) data,
      slice2 (row_start m) (row_end m) (col_start m) (col_end m) m,
      slice (col_start m) (col_end m) lons,
      slice (row_start m) (row_end m) lats)"
  using rows_flag[OF assms(2)] cols_flag[OF assms]
  by (simp add: clip_to_polygon_bounds_def)

lemma clip_none:
  assumes "\<not> has_true m"
  shows "clip_to_polygon_bounds data m lons lats = (data, m, lons, lats)"
  using no_flags[OF assms] by (simp add: clip_to_polygon_bounds_def)

lemma covers_bounds:
  assumes "rect h w m" "has_true m"
  shows "covers m (row_start m) (row_end m) (col_start m) (col_end m)"
  unfolding covers_def
proof (intro allI impI)
  fix i j assume i: "i < length m" and j: "j < length (m ! i)" and t: "m ! i ! j"
  have ih: "i < h" using i assms(1) by (simp add: rect_def)
  have jw: "j < w" using j rect_row[OF assms(1) ih] by simp
  have "row_start m \<le> i \<and> i < row_end m" using row_bounds(5)[OF assms(2)] i j t by blast
  moreover have "col_start m \<le> j \<and> j < col_end m"
    using col_bounds(5)[OF assms] jw ih t by blast
  ultimately show "row_start m \<le> i \<and> i < row_end m \<and> col_start m \<le> j \<and> j < col_end m"
    by simp
qed

lemma covers_minimal:
  assumes "rect h w m" "has_true m" "covers m a b c d"
  shows "a \<le> row_start m \<and> row_end m \<le> b \<and> c \<le> col_start m \<and> col_end m \<le> d"
proof -
  have hm: "length m = h" using assms(1) by (simp add: rect_def)
  note rb = row_bounds[OF assms(2)] and cb = col_bounds[OF assms(1,2)]
  have cov: "\<And>i j. i < length m \<Longrightarrow> j < length (m ! i) \<Longrightarrow> m ! i ! j
      \<Longrightarrow> a \<le> i \<and> i < b \<and> c \<le> j \<and> j < d"
    using assms(3) by (simp add: covers_def)
  have s: "row_start m < length m" using rb(1,2) by simp
  obtain j where "j < length (m ! row_start m)" "m ! row_start m ! j" using rb(3) by blast
  then have 1: "a \<le> row_start m" using cov[OF s] by blast
  have e: "row_end m - 1 < length m" using rb(1,2) by arith
  obtain j' where "j' < length (m ! (row_end m - 1))" "m ! (row_end m - 1) ! j'"
    using rb(4) by blast
  then have "row_end m - 1 < b" using cov[OF e] by blast
  then have 2: "row_end m \<le> b" using rb(1) by arith
  obtain i where i: "i < h" "m ! i ! col_start m" using cb(3) by blast
  have "col_start m < length (m ! i)" using rect_row[OF assms(1) i(1)] cb(1,2) by simp
  then have 3: "c \<le> col_start m" using cov[of i "col_start m"] i hm by simp
  obtain i' where i': "i' < h" "m ! i' ! (col_end m - 1)" using cb(4) by blast
  have "col_end m - 1 < length (m ! i')" using rect_row[OF assms(1) i'(1)] cb(1,2) by arith
  then have "col_end m - 1 < d" using cov[of i' "col_end m - 1"] i' hm by simp
  then have 4: "col_end m \<le> d" using cb(1) by arith
  show ?thesis using 1 2 3 4 by simp
qed

text \<open>
  Claim C3. For a mask of shape \<open>h \<times> w\<close> with a True cell, the bounding clipper returns the
  data and the mask cut to the rows \<open>row_start \<le> i < row_end\<close> and the columns
  \<open>col_start \<le> j < col_end\<close>, and the coordinate vectors cut to the same ranges; this
  rectangle covers every True cell and lies inside every rectangle that does, so it is
  the one minimal bounding rectangle. For a mask with no True cell the clipper returns
  its four arguments unchanged.
\<close>

theorem clip_minimal_bounding_rectangle:
  assumes "rect h w m"
  shows "(has_true m \<longrightarrow>
            clip_to_polygon_bounds data m lons lats =
              (slice2 (row_start m) (row_end m) (col_start m) (col_end m) data,
               slice2 (row_start m) (row_end m) (col_start m) (col_end m) m,
               slice (col_start m) (col_end m) lons,
               slice (row_start m) (row_end m) lats)
          \<and> row_start m < row_end m \<and> row_end m \<le> h
          \<and> col_start m < col_end m \<and> col_end m \<le> w
          \<and> covers m (row_start m) (row_end m) (col_start m) (col_end m)
          \<and> (\<forall>a b c d. covers m a b c d \<longrightarrow>
                a \<le> row_start m \<and> row_end m \<le> b \<and> c \<le> col_start m \<and> col_end m \<le> d))
       \<and> (\<not> has_true m \<longrightarrow> clip_to_polygon_bounds data m lons lats = (data, m, lons, lats))"
proof (intro conjI impI allI)
  assume t: "has_true m"
  show "clip_to_polygon_bounds data m lons lats =
              (slice2 (row_start m) (row_end m) (col_start m) (col_end m) data,
               slice2 (row_start m) (row_end m) (col_start m) (col_end m) m,
               slice (col_start m) (col_end m) lons,
               slice (row_start m) (row_end m) lats)"
    using clip_else[OF assms t] .
  show "row_start m < row_end m" using row_bounds(1)[OF t] .
  show "row_end m \<le> h" using row_bounds(2)[OF t] assms by (simp add: rect_def)
  show "col_start m < col_end m" using col_bounds(1)[OF assms t] .
  show "col_end m \<le> w" using col_bounds(2)[OF assms t] .
  show "covers m (row_start m) (row_end m) (col_start m) (col_end m)"
    using covers_bounds[OF assms t] .
next
  fix a b c d assume t: "has_true m" and c: "covers m a b c d"
  note r = covers_minimal[OF assms t c]
  show "a \<le> row_start m" "row_end m \<le> b" "c \<le> col_start m" "col_end m \<le> d"
    using r by simp_all
next
  assume "\<not> has_true m"
  then show "clip_to_polygon_bounds data m lons lats = (data, m, lons, lats)"
    by (rule clip_none)
qed

theorem clip_minimal_bounding_rectangle_witness:
  "rect 3 4 [[False, False, False, False], [False, False, True, False], [False, True, False, False]]
   \<and> has_true [[False, False, False, False], [False, False, True, False], [False, True, False, False]]
   \<and> clip_to_polygon_bounds [[1, 2, 3, 4], [5, 6, 7, 8], [9, 10, 11, 12 :: nat]]
         [[False, False, False, False], [False, False, True, False], [False, True, False, False]]
         [10, 20, 30, 40 :: rat] [1, 2, 3 :: rat]
       = ([[6, 7], [10, 11]], [[False, True], [True, False]], [20, 30], [2, 3])
   \<and> covers [[False, False, False, False], [False, False, True, False], [False, True, False, False]]
         1 3 1 3"
proof -
  let ?m = "[[False, False, False, False], [False, False, True, False], [False, True, False, False]]"
  have r: "rect 3 4 ?m" by (simp add: rect_def)
  have t: "has_true ?m" by (simp add: has_true_def)
  have b: "row_start ?m = 1" "row_end ?m = 3" "col_start ?m = 1" "col_end ?m = 3"
    by (simp_all add: any_axis1_def any_axis0_def ncols_def
        row_start_def row_end_def col_start_def col_end_def argmax_def)
  show ?thesis
    using clip_minimal_bounding_rectangle
      [OF r, of "[[1, 2, 3, 4], [5, 6, 7, 8], [9, 10, 11, 12 :: nat]]"
         "[10, 20, 30, 40 :: rat]" "[1, 2, 3 :: rat]"] r t
    by (simp add: b slice2_def slice_def)
qed

lemma slice_map2: "slice a b (map2 f xs ys) = map2 f (slice a b xs) (slice a b ys)"
  by (simp add: slice_def take_map drop_map take_zip drop_zip)

lemma slice2_where_nan:
  "slice2 r0 r1 c0 c1 (where_nan m d) = where_nan (slice2 r0 r1 c0 c1 m) (slice2 r0 r1 c0 c1 d)"
proof -
  have "map (slice c0 c1) (map2 (\<lambda>mr dr. map2 (\<lambda>b x. if b then x else None) mr dr) xs ys)
      = map2 (\<lambda>mr dr. map2 (\<lambda>b x. if b then x else None) mr dr)
          (map (slice c0 c1) xs) (map (slice c0 c1) ys)" for xs :: "bool array2" and ys :: "fval array2"
    by (simp add: zip_map_map slice_def take_map drop_map take_zip drop_zip case_prod_unfold)
  then show ?thesis
    by (simp add: slice2_def where_nan_def slice_map2)
qed

text \<open>
  Claim C4. For a data slice and a mask of one shape, clipping both and then putting NaN
  where the clipped mask is False gives the array that putting NaN where the mask is
  False and then clipping gives.
\<close>

theorem clip_then_mask_eq_mask_then_clip:
  assumes "same_shape data m"
  shows "(case clip_to_polygon_bounds data m lons lats of
            (clipped_data, clipped_mask, clipped_lons, clipped_lats) \<Rightarrow>
              where_nan clipped_mask clipped_data)
       = fst (clip_to_polygon_bounds (where_nan m data) m lons lats)"
  by (simp add: clip_to_polygon_bounds_def Let_def slice2_where_nan)


theorem clip_then_mask_eq_mask_then_clip_witness:
  "same_shape [[Some 1, Some 2, Some 3], [Some 4, Some 5, Some (6 :: rat)]]
              [[False, True, False], [False, True, True]]
   \<and> (case clip_to_polygon_bounds [[Some 1, Some 2, Some 3], [Some 4, Some 5, Some (6 :: rat)]]
              [[False, True, False], [False, True, True]] [10, 20, 30 :: rat] [1, 2 :: rat] of
        (clipped_data, clipped_mask, clipped_lons, clipped_lats) \<Rightarrow>
           where_nan clipped_mask clipped_data)
     = fst (clip_to_polygon_bounds
              (where_nan [[False, True, False], [False, True, True]]
                 [[Some 1, Some 2, Some 3], [Some 4, Some 5, Some (6 :: rat)]])
              [[False, True, False], [False, True, True]] [10, 20, 30 :: rat] [1, 2 :: rat])
   \<and> fst (clip_to_polygon_bounds
              (where_nan [[False, True, False], [False, True, True]]
                 [[Some 1, Some 2, Some 3], [Some 4, Some 5, Some (6 :: rat)]])
              [[False, True, False], [False, True, True]] [10, 20, 30 :: rat] [1, 2 :: rat])
     = [[Some 2, None], [Some 5, Some 6]]"
  using clip_then_mask_eq_mask_then_clip
    [of "[[Some 1, Some 2, Some 3], [Some 4, Some 5, Some (6 :: rat)]]"
        "[[False, True, False], [False, True, True]]" "[10, 20, 30 :: rat]" "[1, 2 :: rat]"]
  by (simp add: same_shape_def clip_to_polygon_bounds_def any_axis1_def any_axis0_def ncols_def
      row_start_def row_end_def col_start_def col_end_def argmax_def slice2_def slice_def
      where_nan_def)

section \<open>Properties of the raster emitter\<close>

lemma grid_transform_ok:
  "lons \<noteq> [] \<Longrightarrow> lats \<noteq> [] \<Longrightarrow>
   grid_transform lons lats =
     Inr (from_origin (Min (set lons) - cell_res lons / 2) (Max (set lats) + cell_res lats / 2)
            (cell_res lons) (cell_res lats))"
  by (simp add: grid_transform_def Let_def)

lemma overview_levels_nonempty:
  assumes "16 < min h w"
  shows "overview_levels h w \<noteq> []"
proof -
  have "2 < min h w div 2" using assms by arith
  then show ?thesis by (simp add: overview_levels_def Let_def)
qed

text \<open>
  Claim C9, as the code has it. For axes that are not empty \<^verbatim>\<open>save_raster\<close> writes a
  raster of the data's height \<open>h\<close> and width \<open>w\<close>. Overviews are built only when
  \<open>min h w > 16\<close> and the library does not raise, and then at the levels of
  \<open>2, 4, 8, 16, 32\<close> that are below \<open>min h w div 2\<close>; otherwise none is built. The
  layout is tiled exactly when \<open>min h w \<ge> 256\<close>. The NoData value \<open>-9999\<close> is in the
  profile and set on the band, every NaN cell of the band carries it, and the pass of
  GDAL sets it again when that pass succeeds; when the pass raises, a warning is printed.
\<close>

theorem save_raster_overviews_tiling_nodata:
  assumes "lons \<noteq> []" and "lats \<noteq> []"
  shows "\<exists>r warnings. save_raster env data output_path lons lats = Inr (r, warnings)
     \<and> height r = length data \<and> width r = ncols data
     \<and> overviews r =
         (if 16 < min (height r) (width r) \<and> \<not> build_overviews_raises env output_path
          then filter (\<lambda>level. level < min (height r) (width r) div 2) [2, 4, 8, 16, 32]
          else [])
     \<and> tiled r = (256 \<le> min (height r) (width r))
     \<and> nodata r = - 9999 \<and> band_nodata r = - 9999
     \<and> band r = map (map (\<lambda>x. case x of None \<Rightarrow> - 9999 | Some v \<Rightarrow> v)) data
     \<and> gdal_nodata r = (if gdal_update env output_path = Gdal_ok then Some (- 9999) else None)
     \<and> (Gdal_nodata_failed \<in> set warnings) = (gdal_update env output_path = Gdal_raises)"
  using overview_levels_nonempty[of "length data" "ncols data"]
  by (auto simp add: save_raster_def grid_transform_ok[OF assms] Let_def nodata_value_def
      overview_levels_def)

theorem save_raster_overviews_tiling_nodata_witness:
  "map rat_of_nat [0..<20] \<noteq> []
   \<and> (\<exists>r warnings.
         save_raster io_ok (replicate 20 (replicate 20 (Some 1))) ''t.tif''
           (map rat_of_nat [0..<20]) (map rat_of_nat [0..<20]) = Inr (r, warnings)
         \<and> height r = 20 \<and> width r = 20 \<and> overviews r = [2, 4, 8] \<and> \<not> tiled r
         \<and> nodata r = - 9999 \<and> gdal_nodata r = Some (- 9999)
         \<and> Gdal_nodata_failed \<notin> set warnings)"
proof -
  have n: "map rat_of_nat [0..<20] \<noteq> []" by simp
  have c: "ncols (replicate 20 (replicate 20 (Some (1::rat)))) = 20"
    by code_simp
  show ?thesis
    using save_raster_overviews_tiling_nodata
      [OF n n, of io_ok "replicate 20 (replicate 20 (Some 1))" "''t.tif''"] n
    by (auto simp add: c io_ok_def)
qed

text \<open>
  The claim as stated fails on a raster of 10 by 10 cells: the levels 2 and 4 are below
  half of 10, and no overview is built.
\<close>

theorem save_raster_overviews_counterexample:
  "map_sum id (overviews \<circ> fst)
     (save_raster io_ok (replicate 10 (replicate 10 None)) ''t.tif''
        (map of_nat [0..<10]) (map of_nat [0..<10])) = Inr []
   \<and> overview_levels 10 10 = [2, 4]"
  by (simp add: save_raster_def grid_transform_def Let_def overview_levels_def io_ok_def)

section \<open>The resolution argument\<close>

text \<open>
  Claim C10. Two runs whose arguments differ in \<^verbatim>\<open>--resolution\<close> only print the same
  lines, write the same files and end with the same status, and the request sent to the
  provider is the same; the cell size of an axis of length 1 (or 0) is the constant
  \<open>1/10\<close>.
\<close>

theorem resolution_argument_unused:
  "main W (a\<lparr>resolution := r\<rparr>) = main W a
   \<and> build_request W (a\<lparr>resolution := r\<rparr>) polygons = build_request W a polygons
   \<and> (length xs \<le> 1 \<longrightarrow> cell_res xs = 1 / 10)"
  by (simp add: main_def build_request_def cell_res_def Let_def
      cong: sum.case_cong prod.case_cong option.case_cong)

theorem resolution_argument_unused_witness:
  "main sample_world (sample_args\<lparr>resolution := 1 / 4\<rparr>) = main sample_world sample_args
   \<and> length [5 :: rat] \<le> 1 \<and> cell_res [5] = 1 / 10"
  using resolution_argument_unused
    [where W = sample_world and a = sample_args and r = "1 / 4" and xs = "[5]"]
  by simp

section \<open>Properties of the grid aligner\<close>

lemma pymod_range:
  assumes "0 < m"
  shows "0 \<le> pymod x m" and "pymod x m < m"
proof -
  have "of_int \<lfloor>x / m\<rfloor> \<le> x / m" by (rule of_int_floor_le)
  then have "of_int \<lfloor>x / m\<rfloor> * m \<le> x" by (simp only: pos_le_divide_eq[OF assms])
  then show "0 \<le> pymod x m" by (simp add: pymod_def mult.commute)
  have "x / m < of_int \<lfloor>x / m\<rfloor> + 1" using floor_correct[of "x / m"] by simp
  then have "x < (of_int \<lfloor>x / m\<rfloor> + 1) * m" by (simp only: pos_divide_less_eq[OF assms])
  then show "pymod x m < m" by (simp add: pymod_def algebra_simps)
qed

lemma wrap_longitude_range: "- 180 \<le> wrap_longitude lon \<and> wrap_longitude lon < 180"
  using pymod_range[of 360 "lon + 180"] by (simp add: wrap_longitude_def)

lemma sort_order_mset: "mset (sort_order ks) = mset [0..<length ks]"
proof -
  have "mset (map snd (sort_key fst (zip ks [0..<length ks]))) = mset (map snd (zip ks [0..<length ks]))"
    by (metis mset_map mset_sort)
  then show ?thesis by (simp add: sort_order_def)
qed

lemma sort_order_values: "map ((!) ks) (sort_order ks) = map fst (sort_key fst (zip ks [0..<length ks]))"
proof -
  have "\<forall>p \<in> set (sort_key fst (zip ks [0..<length ks])). ks ! snd p = fst p"
    by (auto simp: set_zip)
  then show ?thesis by (simp add: sort_order_def)
qed

lemma sort_order_sorted: "sorted (map ((!) ks) (sort_order ks))"
  by (simp add: sort_order_values)

lemma sort_order_values_mset: "mset (map ((!) ks) (sort_order ks)) = mset ks"
proof -
  have "mset (map fst (sort_key fst (zip ks [0..<length ks]))) = mset (map fst (zip ks [0..<length ks]))"
    by (metis mset_map mset_sort)
  then show ?thesis by (simp add: sort_order_values)
qed

lemma sortby_longitude_values:
  "longitude (sortby_longitude ds) = map ((!) (longitude ds)) (sort_order (longitude ds))"
  by (simp add: sortby_longitude_def isel_longitude_def)

lemma align_latitude_longitude:
  "align_latitude ds = Inr ds' \<Longrightarrow> longitude ds' = longitude ds"
  by (auto simp: align_latitude_def sortby_latitude_def isel_latitude_def split: if_splits)

text \<open>
  Claim C2, as the code has it. When the greatest longitude of the grid is above 180, the
  aligner maps every longitude \<open>lon\<close> to \<open>((lon + 180) mod 360) - 180\<close> and selects the
  axis and the columns of every slice at the indices sorted by the new values, a
  permutation of the indices. The new axis holds the mapped values, each in
  \<open>[-180, 180)\<close>, in ascending order; it is strictly ascending when the mapped values
  are distinct, that is when no two longitudes differ by a multiple of 360. The latitude
  step leaves this axis as it is. A grid with no longitude above 180 is returned
  unchanged.
\<close>

theorem align_longitude_wraps_and_sorts:
  assumes "longitude ds \<noteq> []"
  shows "(180 < Max (set (longitude ds)) \<longrightarrow>
           (\<exists>ds'. align_longitude ds = Inr ds'
              \<and> ds' = isel_longitude (sort_order (map wrap_longitude (longitude ds)))
                        (ds\<lparr>longitude := map wrap_longitude (longitude ds)\<rparr>)
              \<and> mset (sort_order (map wrap_longitude (longitude ds))) = mset [0..<length (longitude ds)]
              \<and> mset (longitude ds') = mset (map wrap_longitude (longitude ds))
              \<and> sorted (longitude ds')
              \<and> (\<forall>x \<in> set (longitude ds'). - 180 \<le> x \<and> x < 180)
              \<and> (distinct (map wrap_longitude (longitude ds)) \<longrightarrow> sorted_wrt (<) (longitude ds'))
              \<and> (\<forall>ds2. align_grid ds = Inr ds2 \<longrightarrow> longitude ds2 = longitude ds')))
       \<and> (\<not> 180 < Max (set (longitude ds)) \<longrightarrow> align_longitude ds = Inr ds)"
proof (intro conjI impI)
  assume big: "180 < Max (set (longitude ds))"
  let ?w = "map wrap_longitude (longitude ds)"
  let ?ds' = "isel_longitude (sort_order ?w) (ds\<lparr>longitude := ?w\<rparr>)"
  have eq: "align_longitude ds = Inr ?ds'"
    using assms big by (simp add: align_longitude_def sortby_longitude_def)
  have lon: "longitude ?ds' = map ((!) ?w) (sort_order ?w)"
    by (simp add: isel_longitude_def)
  have m: "mset (longitude ?ds') = mset ?w" unfolding lon by (rule sort_order_values_mset)
  have s: "sorted (longitude ?ds')" unfolding lon by (rule sort_order_sorted)
  have "set (longitude ?ds') = set ?w" using m by (rule mset_eq_setD)
  then have r: "\<forall>x \<in> set (longitude ?ds'). - 180 \<le> x \<and> x < 180"
    using wrap_longitude_range by auto
  have d: "distinct ?w \<longrightarrow> sorted_wrt (<) (longitude ?ds')"
    using s mset_eq_imp_distinct_iff[OF m] by (simp add: strict_sorted_iff)
  have g: "\<forall>ds2. align_grid ds = Inr ds2 \<longrightarrow> longitude ds2 = longitude ?ds'"
    using eq align_latitude_longitude by (simp add: align_grid_def)
  have p: "mset (sort_order ?w) = mset [0..<length (longitude ds)]"
    using sort_order_mset[of ?w] by simp
  show "\<exists>ds'. align_longitude ds = Inr ds'
              \<and> ds' = isel_longitude (sort_order (map wrap_longitude (longitude ds)))
                        (ds\<lparr>longitude := map wrap_longitude (longitude ds)\<rparr>)
              \<and> mset (sort_order (map wrap_longitude (longitude ds))) = mset [0..<length (longitude ds)]
              \<and> mset (longitude ds') = mset (map wrap_longitude (longitude ds))
              \<and> sorted (longitude ds')
              \<and> (\<forall>x \<in> set (longitude ds'). - 180 \<le> x \<and> x < 180)
              \<and> (distinct (map wrap_longitude (longitude ds)) \<longrightarrow> sorted_wrt (<) (longitude ds'))
              \<and> (\<forall>ds2. align_grid ds = Inr ds2 \<longrightarrow> longitude ds2 = longitude ds')"
    using eq p m s r d g by blast
next
  assume "\<not> 180 < Max (set (longitude ds))"
  then show "align_longitude ds = Inr ds" using assms by (simp add: align_longitude_def)
qed

theorem align_longitude_wraps_and_sorts_witness:
  "longitude grid_0_270 \<noteq> [] \<and> 180 < Max (set (longitude grid_0_270))
   \<and> distinct (map wrap_longitude (longitude grid_0_270))
   \<and> (\<exists>ds'. align_longitude grid_0_270 = Inr ds'
          \<and> longitude ds' = [- 180, - 90, 0, 90]
          \<and> sorted_wrt (<) (longitude ds')
          \<and> data_vars ds' = [(''t2m'', [[[Some 3, Some 4, Some 1, Some 2]]])])"
proof -
  have n: "longitude grid_0_270 \<noteq> []" by (simp add: grid_0_270_def)
  have b: "180 < Max (set (longitude grid_0_270))" by (simp add: grid_0_270_def)
  have d: "distinct (map wrap_longitude (longitude grid_0_270))" by code_simp
  have e: "align_longitude grid_0_270 =
      Inr \<lparr>longitude = [- 180, - 90, 0, 90], latitude = [0], coord_time = None,
           coord_valid_time = Some [],
           data_vars = [(''t2m'', [[[Some 3, Some 4, Some 1, Some 2]]])]\<rparr>"
    by code_simp
  from align_longitude_wraps_and_sorts[OF n] b d
  obtain ds' where "align_longitude grid_0_270 = Inr ds'" "sorted_wrt (<) (longitude ds')"
    by blast
  with e n b d show ?thesis by auto
qed

text \<open>
  The claim as stated fails on an axis that holds both 0 and 360: both are mapped to 0,
  and the aligned axis is not strictly ascending.
\<close>

theorem align_longitude_strict_counterexample:
  "180 < Max (set (longitude grid_0_360))
   \<and> map_sum id longitude (align_longitude grid_0_360) = Inr [0, 0]
   \<and> \<not> sorted_wrt (<) [0, 0 :: rat]"
  by code_simp

section \<open>Properties of the mask rasterizer\<close>

text \<open>
  Claim C1 fails on the code. The dataset \<open>era5_2x2\<close> has its latitudes in descending
  order, as the provider delivers them; the aligner sorts them to \<open>[0, 1]\<close>. The region
  \<open>south_west\<close> lies inside the cell at latitude 0 and longitude 0, the cell \<open>(0, 0)\<close>
  of the aligned dataset. The mask marks the cell \<open>(1, 0)\<close>, at latitude 1, whose footprint
  does not meet the region, and leaves the cell \<open>(0, 0)\<close> unmarked, whose footprint does.
\<close>

theorem mask_rows_mirrored:
  "map_sum id latitude (align_grid era5_2x2) = Inr [0, 1]
   \<and> map_sum id longitude (align_grid era5_2x2) = Inr [0, 1]
   \<and> (case align_grid era5_2x2 of Inl e \<Rightarrow> Inl e | Inr ds \<Rightarrow> create_polygon_mask boxes [south_west] ds)
       = Inr [[False, False], [True, False]]
   \<and> \<not> intersects boxes (cell_footprint [0, 1] [0, 1] 1 0) south_west
   \<and> intersects boxes (cell_footprint [0, 1] [0, 1] 0 0) south_west"
  by code_simp

lemma cell_res_nonneg: "0 \<le> cell_res xs"
  by (simp add: cell_res_def)

lemma uniform_nth:
  assumes "uniform xs" "k < length xs"
  shows "xs ! k = hd xs + of_nat k * cell_res xs"
proof -
  have "xs ! k = map (\<lambda>k. hd xs + of_nat k * cell_res xs) [0..<length xs] ! k"
    using assms(1) unfolding uniform_def by simp
  then show ?thesis using assms(2) by simp
qed

lemma uniform_Min:
  assumes "uniform xs" "xs \<noteq> []"
  shows "Min (set xs) = hd xs"
proof (rule Min_eqI)
  show "finite (set xs)" by simp
  show "hd xs \<in> set xs" using assms(2) by simp
  fix y assume "y \<in> set xs"
  then obtain k where k: "k < length xs" "y = xs ! k" by (auto simp: in_set_conv_nth)
  have "0 \<le> of_nat k * cell_res xs" using cell_res_nonneg by simp
  then show "hd xs \<le> y" using uniform_nth[OF assms(1) k(1)] k(2) by simp
qed

lemma uniform_Max:
  assumes "uniform xs" "xs \<noteq> []"
  shows "Max (set xs) = hd xs + of_nat (length xs - 1) * cell_res xs"
proof (rule Max_eqI)
  show "finite (set xs)" by simp
  have l: "length xs - 1 < length xs" using assms(2) by simp
  have "xs ! (length xs - 1) \<in> set xs" using l by (rule nth_mem)
  then show "hd xs + of_nat (length xs - 1) * cell_res xs \<in> set xs"
    using uniform_nth[OF assms(1) l] by simp
  fix y assume "y \<in> set xs"
  then obtain k where k: "k < length xs" "y = xs ! k" by (auto simp: in_set_conv_nth)
  have "(of_nat k :: rat) \<le> of_nat (length xs - 1)" using k(1) by simp
  then have "of_nat k * cell_res xs \<le> of_nat (length xs - 1) * cell_res xs"
    using cell_res_nonneg by (rule mult_right_mono)
  then show "y \<le> hd xs + of_nat (length xs - 1) * cell_res xs"
    using uniform_nth[OF assms(1) k(1)] k(2) by simp
qed

text \<open>
  On a uniform grid the pixel in row \<open>i\<close> of the transform is the footprint of the
  dataset's cell in row \<open>length lats - 1 - i\<close>: the rows are mirrored.
\<close>

lemma pixel_box_mirrored:
  assumes "uniform lons" "uniform lats" "i < length lats" "j < length lons"
    and "grid_transform lons lats = Inr T"
  shows "pixel_box T i j = cell_footprint lons lats (length lats - 1 - i) j"
proof -
  have ne: "lons \<noteq> []" "lats \<noteq> []" using assms(3,4) by auto
  have T: "T = from_origin (hd lons - cell_res lons / 2)
                 (hd lats + of_nat (length lats - 1) * cell_res lats + cell_res lats / 2)
                 (cell_res lons) (cell_res lats)"
    using assms(5) grid_transform_ok[OF ne] uniform_Min[OF assms(1) ne(1)] uniform_Max[OF assms(2) ne(2)]
    by simp
  have lon: "lons ! j = hd lons + of_nat j * cell_res lons" using uniform_nth[OF assms(1,4)] .
  have k: "length lats - 1 - i < length lats" using assms(3) by arith
  have "(of_nat (length lats - 1 - i) :: rat) = of_nat (length lats - 1) - of_nat i"
    using assms(3) by (simp add: of_nat_diff)
  then have lat: "lats ! (length lats - 1 - i)
      = hd lats + (of_nat (length lats - 1) - of_nat i) * cell_res lats"
    using uniform_nth[OF assms(2) k] by simp
  have a: "0 \<le> cell_res lons" "0 \<le> cell_res lats" by (rule cell_res_nonneg)+
  show ?thesis
    unfolding T pixel_box_def cell_footprint_def from_origin_def Let_def lon lat
    using a by (simp add: algebra_simps min_def max_def)
qed

lemma create_polygon_mask_nth:
  assumes "create_polygon_mask G polygons ds = Inr m"
    and "i < length (latitude ds)" "j < length (longitude ds)"
  shows "\<exists>T. grid_transform (longitude ds) (latitude ds) = Inr T
           \<and> m ! i ! j = list_ex (all_touched G (pixel_box T i j)) polygons"
  using assms
  by (auto simp: create_polygon_mask_def rasterize_def Let_def split: sum.splits if_splits)


lemma mask_mirrored:
  assumes "create_polygon_mask G polygons ds = Inr m"
    and "uniform (longitude ds)" "uniform (latitude ds)"
    and "i < length (latitude ds)" "j < length (longitude ds)"
  shows "m ! i ! j = list_ex (all_touched G
            (cell_footprint (longitude ds) (latitude ds) (length (latitude ds) - 1 - i) j)) polygons"
  using create_polygon_mask_nth[OF assms(1,4,5)] pixel_box_mirrored[OF assms(2,3,4,5)]
  by auto

section \<open>Properties of the orchestrator\<close>

lemma add_state_empty [simp]: "add_state st empty_state = st" "add_state empty_state st = st"
  by (simp_all add: add_state_def empty_state_def)

lemma add_state_assoc: "add_state (add_state a b) c = add_state a (add_state b c)"
  by (simp add: add_state_def)

lemma print_add: "print e (add_state st d) = add_state st (print e d)"
  by (simp add: print_def add_state_def)

lemma print_delta: "print e st = add_state st (event_delta e)"
  by (simp add: print_def add_state_def event_delta_def)

lemma raster_step_delta:
  "print (RASTER_PATH p) (st\<lparr>printed := printed st @ warnings,
       files := files st @ [(p, Raster_file r)], raster_count := raster_count st + 1\<rparr>)
   = add_state st (raster_delta p r warnings)"
  by (simp add: print_def add_state_def raster_delta_def)

lemma raster_loop_thread:
  "raster_loop env ds m v var hrs out its st =
     (case raster_loop env ds m v var hrs out its empty_state of (e, d) \<Rightarrow> (e, add_state st d))"
proof (induction its arbitrary: st)
  case Nil
  show ?case by simp
next
  case (Cons x its)
  obtain idx t where x: "x = (idx, t)" by (cases x)
  show ?case
  proof (cases "hour_selected hrs t")
    case False
    then show ?thesis using Cons.IH[of st] by (simp add: x)
  next
    case sel: True
    show ?thesis
    proof (cases "isel_time ds v idx")
      case (Inl e)
      then show ?thesis using sel by (simp add: x)
    next
      case (Inr data)
      obtain cd cm clons clats where
        c: "clip_to_polygon_bounds data m (longitude ds) (latitude ds) = (cd, cm, clons, clats)"
        by (cases "clip_to_polygon_bounds data m (longitude ds) (latitude ds)")
      let ?p = "os_path_join out (var @ ''_'' @ strftime_Ymd_HM t @ ''.tif'')"
      show ?thesis
      proof (cases "save_raster env (where_nan cm cd) ?p clons clats")
        case (Inl e)
        then show ?thesis using sel Inr c by (simp add: x)
      next
        case sr: (Inr rw)
        obtain r w where rw: "rw = (r, w)" by (cases rw)
        have step: "raster_loop env ds m v var hrs out (x # its) s
            = raster_loop env ds m v var hrs out its (add_state s (raster_delta ?p r w))" for s :: "'a run_state"
          using sel Inr c sr rw by (simp add: x raster_step_delta[symmetric] Let_def)
        show ?thesis
          unfolding step
          using Cons.IH[of "add_state st (raster_delta ?p r w)"]
                Cons.IH[of "add_state empty_state (raster_delta ?p r w)"]
          by (simp add: add_state_assoc split: prod.splits)
      qed
    qed
  qed
qed

lemma vector_step_delta:
  "print (VECTOR_PATH p) (st\<lparr>files := files st @ [(p, Vector_file gdf)]\<rparr>)
   = add_state st (vector_delta p gdf)"
  by (simp add: print_def add_state_def vector_delta_def)

lemma vector_layers_thread:
  "vector_layers ds cells v var hrs out its st created =
     (case vector_layers ds cells v var hrs out its empty_state [] of
        (e, d, c) \<Rightarrow> (e, add_state st d, created @ c))"
proof (induction its arbitrary: st created)
  case Nil
  show ?case by simp
next
  case (Cons x its)
  obtain idx t where x: "x = (idx, t)" by (cases x)
  show ?case
  proof (cases "hour_selected hrs t")
    case False
    then show ?thesis using Cons.IH[of st created] by (simp add: x)
  next
    case sel: True
    show ?thesis
    proof (cases "isel_time ds v idx")
      case (Inl e)
      then show ?thesis using sel by (simp add: x)
    next
      case (Inr data)
      show ?thesis
      proof (cases "collect (\<lambda>(g, i, j). at2 data i j) cells")
        case (Inl e)
        then show ?thesis using sel Inr by (simp add: x)
      next
        case vals: (Inr pixel_values)
        let ?p = "os_path_join out (var @ ''_'' @ strftime_Ymd_HM t @ ''_grid.geojson'')"
        let ?gdf = "\<lparr>geometry_column = map fst cells, value_name = var,
                      value_column = pixel_values,
                      lat_center = map (\<lambda>(g, i, j). latitude ds ! i) cells,
                      lon_center = map (\<lambda>(g, i, j). longitude ds ! j) cells\<rparr>"
        have step: "vector_layers ds cells v var hrs out (x # its) s c
            = vector_layers ds cells v var hrs out its (add_state s (vector_delta ?p ?gdf)) (c @ [?p])"
          for s :: "'a run_state" and c
          using sel Inr vals by (simp add: x vector_step_delta[symmetric] Let_def)
        show ?thesis
          unfolding step
          using Cons.IH[of "add_state st (vector_delta ?p ?gdf)" "created @ [?p]"]
                Cons.IH[of "add_state empty_state (vector_delta ?p ?gdf)" "[] @ [?p]"]
          by (simp add: add_state_assoc split: prod.splits)
      qed
    qed
  qed
qed

lemma create_vector_grid_thread:
  "create_vector_grid G ds polygons v var hrs out st =
     (case create_vector_grid G ds polygons v var hrs out empty_state of
        (e, d, c) \<Rightarrow> (e, add_state st d, c))"
proof -
  let ?cells = "pixel_cells G (longitude ds) (latitude ds) (union_all G polygons)"
  show ?thesis
  proof (cases "?cells = []")
    case True
    then show ?thesis by (simp add: create_vector_grid_def Let_def print_delta add_state_assoc)
  next
    case ne: False
    show ?thesis
    proof (cases "time_values ds")
      case (Inl e)
      then show ?thesis using ne by (simp add: create_vector_grid_def Let_def print_delta)
    next
      case (Inr time_vals)
      show ?thesis
        using ne Inr
          vector_layers_thread[of ds ?cells v var hrs out "enumerate 0 time_vals"
             "add_state st (event_delta Computing_intersections)" "[]"]
          vector_layers_thread[of ds ?cells v var hrs out "enumerate 0 time_vals"
             "event_delta Computing_intersections" "[]"]
        by (simp add: create_vector_grid_def Let_def print_delta add_state_assoc
            split: prod.splits)
    qed
  qed
qed

lemma count_add:
  "(add_state s d)\<lparr>vector_count := vector_count (add_state s d) + n\<rparr>
     = add_state s (d\<lparr>vector_count := vector_count d + n\<rparr>)"
  by (simp add: add_state_def)

lemma variables_loop_thread:
  "variables_loop G env fmt out polygons ds m hrs vs st =
     (case variables_loop G env fmt out polygons ds m hrs vs empty_state of
        (e, d) \<Rightarrow> (e, add_state st d))"
proof (induction vs arbitrary: st)
  case Nil
  show ?case by simp
next
  case (Cons var vs)
  show ?case
  proof (cases "var_to_use ds var")
    case None
    have step: "variables_loop G env fmt out polygons ds m hrs (var # vs) s
        = variables_loop G env fmt out polygons ds m hrs vs
            (add_state s (event_delta (Variable_not_found var)))" for s :: "'a run_state"
      using None by (simp add: print_delta)
    show ?thesis
      unfolding step
      using Cons.IH[of "add_state st (event_delta (Variable_not_found var))"]
            Cons.IH[of "add_state empty_state (event_delta (Variable_not_found var))"]
      by (simp add: add_state_assoc split: prod.splits)
  next
    case (Some v)
    let ?d1 = "event_delta (Processing_variable v var) :: 'a run_state"
    have st1: "print (Processing_variable v var) s = add_state s ?d1" for s :: "'a run_state"
      by (rule print_delta)
    show ?thesis
    proof (cases "fmt = Vector")
      case vec: True
      obtain e d c where r: "create_vector_grid G ds polygons v var hrs out ?d1 = (e, d, c)"
        by (cases "create_vector_grid G ds polygons v var hrs out ?d1") auto
      have r0: "create_vector_grid G ds polygons v var hrs out empty_state = (e0, d0, c0)
          \<Longrightarrow> create_vector_grid G ds polygons v var hrs out (add_state s ?d1)
              = (e0, add_state s (add_state ?d1 d0), c0)" for s :: "'a run_state" and e0 d0 c0
        using create_vector_grid_thread[of G ds polygons v var hrs out "add_state s ?d1"]
        by (simp add: add_state_assoc)
      obtain e0 d0 c0 where r00: "create_vector_grid G ds polygons v var hrs out empty_state = (e0, d0, c0)"
        by (cases "create_vector_grid G ds polygons v var hrs out empty_state") auto
      note rs = r0[OF r00]
      show ?thesis
      proof (cases e0)
        case (Some err)
        have "variables_loop G env fmt out polygons ds m hrs (var # vs) s
            = (Some err, add_state s (add_state ?d1 d0))" for s :: "'a run_state"
          using \<open>var_to_use ds var = Some v\<close> vec rs[of s] Some by (simp add: st1)
        then show ?thesis by (simp add: add_state_assoc)
      next
        case None
        let ?d = "(add_state ?d1 d0)\<lparr>vector_count := vector_count (add_state ?d1 d0) + length c0\<rparr>"
        have step: "variables_loop G env fmt out polygons ds m hrs (var # vs) s
            = variables_loop G env fmt out polygons ds m hrs vs (add_state s ?d)" for s :: "'a run_state"
          using \<open>var_to_use ds var = Some v\<close> vec rs[of s] None
          by (simp add: st1 count_add)
        show ?thesis
          unfolding step
          using Cons.IH[of "add_state st ?d"] Cons.IH[of "add_state empty_state ?d"]
          by (simp add: add_state_assoc split: prod.splits)
      qed
    next
      case ras: False
      show ?thesis
      proof (cases "time_values ds")
        case (Inl err)
        have "variables_loop G env fmt out polygons ds m hrs (var # vs) s
            = (Some err, add_state s ?d1)" for s :: "'a run_state"
          using \<open>var_to_use ds var = Some v\<close> ras Inl by (simp add: st1)
        then show ?thesis by simp
      next
        case (Inr time_vals)
        obtain e0 d0 where r00:
          "raster_loop env ds m v var hrs out (enumerate 0 time_vals) (empty_state :: 'a run_state) = (e0, d0)"
          by (cases "raster_loop env ds m v var hrs out (enumerate 0 time_vals) (empty_state :: 'a run_state)") auto
        have rs: "raster_loop env ds m v var hrs out (enumerate 0 time_vals) (add_state s ?d1)
            = (e0, add_state s (add_state ?d1 d0))" for s :: "'a run_state"
          using raster_loop_thread[of env ds m v var hrs out "enumerate 0 time_vals" "add_state s ?d1"] r00
          by (simp add: add_state_assoc)
        show ?thesis
        proof (cases e0)
          case (Some err)
          have "variables_loop G env fmt out polygons ds m hrs (var # vs) s
              = (Some err, add_state s (add_state ?d1 d0))" for s :: "'a run_state"
            using \<open>var_to_use ds var = Some v\<close> ras Inr rs[of s] Some by (simp add: st1)
          then show ?thesis by (simp add: add_state_assoc)
        next
          case None
          have step: "variables_loop G env fmt out polygons ds m hrs (var # vs) s
              = variables_loop G env fmt out polygons ds m hrs vs (add_state s (add_state ?d1 d0))"
            for s :: "'a run_state"
            using \<open>var_to_use ds var = Some v\<close> ras Inr rs[of s] None by (simp add: st1)
          show ?thesis
            unfolding step
            using Cons.IH[of "add_state st (add_state ?d1 d0)"]
                  Cons.IH[of "add_state empty_state (add_state ?d1 d0)"]
            by (simp add: add_state_assoc split: prod.splits)
        qed
      qed
    qed
  qed
qed

lemma variables_loop_append:
  "variables_loop G env fmt out polygons ds m hrs (xs @ ys) st =
     (case variables_loop G env fmt out polygons ds m hrs xs st of
        (Some e, s) \<Rightarrow> (Some e, s)
      | (None, s) \<Rightarrow> variables_loop G env fmt out polygons ds m hrs ys s)"
  by (induction xs arbitrary: st)
     (auto simp: Let_def split: option.splits sum.splits prod.splits)

lemma variables_loop_skip:
  assumes "var_to_use ds v = None"
  shows "same_output (Variable_not_found v)
           (variables_loop G env fmt out polygons ds m hrs (xs @ v # ys) st)
           (variables_loop G env fmt out polygons ds m hrs (xs @ ys) st)"
proof -
  obtain ex sx where a: "variables_loop G env fmt out polygons ds m hrs xs st = (ex, sx)"
    by (cases "variables_loop G env fmt out polygons ds m hrs xs st") auto
  show ?thesis
  proof (cases ex)
    case (Some e)
    then show ?thesis using a
      by (simp add: variables_loop_append[of _ _ _ _ _ _ _ _ xs] same_output_def)
  next
    case None
    obtain e d where b: "variables_loop G env fmt out polygons ds m hrs ys (empty_state :: 'a run_state) = (e, d)"
      by (cases "variables_loop G env fmt out polygons ds m hrs ys (empty_state :: 'a run_state)") auto
    have run: "variables_loop G env fmt out polygons ds m hrs (xs @ v # ys) st
        = (e, add_state (print (Variable_not_found v) sx) d)"
      using a None assms b
        variables_loop_thread[of G env fmt out polygons ds m hrs ys "print (Variable_not_found v) sx"]
      by (simp add: variables_loop_append[of _ _ _ _ _ _ _ _ xs])
    have ref: "variables_loop G env fmt out polygons ds m hrs (xs @ ys) st = (e, add_state sx d)"
      using a None b variables_loop_thread[of G env fmt out polygons ds m hrs ys sx]
      by (simp add: variables_loop_append[of _ _ _ _ _ _ _ _ xs])
    show ?thesis
      unfolding run ref by (simp add: same_output_def add_state_def print_def)
  qed
qed

lemma align_grid_names:
  assumes "align_grid ds0 = Inr ds"
  shows "map fst (data_vars ds) = map fst (data_vars ds0)"
proof -
  have 1: "map fst (data_vars (isel_longitude p d)) = map fst (data_vars d)" for p d
    by (simp add: isel_longitude_def case_prod_unfold comp_def)
  have 2: "map fst (data_vars (isel_latitude p d)) = map fst (data_vars d)" for p d
    by (simp add: isel_latitude_def case_prod_unfold comp_def)
  obtain ds1 where a: "align_longitude ds0 = Inr ds1" and b: "align_latitude ds1 = Inr ds"
    using assms by (auto simp: align_grid_def split: sum.splits)
  have "map fst (data_vars ds1) = map fst (data_vars ds0)"
    using a by (auto simp: align_longitude_def sortby_longitude_def 1 split: if_splits)
  moreover have "map fst (data_vars ds) = map fst (data_vars ds1)"
    using b by (auto simp: align_latitude_def sortby_latitude_def 2 split: if_splits)
  ultimately show ?thesis by simp
qed

lemma var_to_use_aligned:
  assumes "align_grid ds0 = Inr ds"
  shows "var_to_use ds v = var_to_use ds0 v"
  by (simp add: var_to_use_def align_grid_names[OF assms])

text \<open>
  Claim C7. A requested variable \<open>v\<close> that the dataset holds under neither its short
  name nor its long name is skipped: the run with \<open>v\<close> among the requested variables
  ends as the run without it does, with the same exit status, the same files written and
  the same lines printed, but for the warning about \<open>v\<close>, which is printed whenever the
  run ends without an exception.
\<close>

theorem missing_variable_is_skipped:
  assumes "var_short_name v \<notin> set (map fst (data_vars ds0))"
    and "v \<notin> set (map fst (data_vars ds0))"
  shows "same_output (Variable_not_found v)
           (process G env fmt out polygons hours (xs @ v # ys) ds0 st)
           (process G env fmt out polygons hours (xs @ ys) ds0 st)
       \<and> exit_status (fst (process G env fmt out polygons hours (xs @ v # ys) ds0 st))
         = exit_status (fst (process G env fmt out polygons hours (xs @ ys) ds0 st))"
proof -
  have none: "var_to_use ds0 v = None" using assms by (simp add: var_to_use_def)
  let ?st1 = "print (Available_variables (map fst (data_vars ds0))) st"
  have main: "same_output (Variable_not_found v)
           (process G env fmt out polygons hours (xs @ v # ys) ds0 st)
           (process G env fmt out polygons hours (xs @ ys) ds0 st)"
  proof (cases "align_grid ds0")
    case (Inl e)
    then show ?thesis by (simp add: process_def same_output_def)
  next
    case (Inr ds)
    have n: "var_to_use ds v = None" using none var_to_use_aligned[OF Inr] by simp
    show ?thesis
    proof (cases "create_polygon_mask G polygons ds")
      case (Inl e)
      then show ?thesis using Inr by (simp add: process_def same_output_def)
    next
      case m: (Inr m)
      let ?st3 = "print (Mask_generated (length (filter id (concat m))) (length m * ncols m))
                    (print Generating_mask ?st1)"
      show ?thesis
      proof (cases "ints_of hours")
        case (Inl e)
        then show ?thesis using Inr m by (simp add: process_def same_output_def Let_def)
      next
        case h: (Inr hrs)
        note k = variables_loop_skip[OF n, of G env fmt out polygons m hrs xs ys ?st3]
        obtain e1 s1 where r1: "variables_loop G env fmt out polygons ds m hrs (xs @ v # ys) ?st3 = (e1, s1)"
          by (cases "variables_loop G env fmt out polygons ds m hrs (xs @ v # ys) ?st3") auto
        obtain e2 s2 where r2: "variables_loop G env fmt out polygons ds m hrs (xs @ ys) ?st3 = (e2, s2)"
          by (cases "variables_loop G env fmt out polygons ds m hrs (xs @ ys) ?st3") auto
        have p1: "process G env fmt out polygons hours (xs @ v # ys) ds0 st =
           (case e1 of Some e \<Rightarrow> (Some e, s1)
            | None \<Rightarrow> (None, print (if fmt = Vector then Finished_vector (vector_count s1)
                                     else Finished_raster (raster_count s1)) s1))"
          using Inr m h r1 by (simp add: process_def Let_def split: option.splits)
        have p2: "process G env fmt out polygons hours (xs @ ys) ds0 st =
           (case e2 of Some e \<Rightarrow> (Some e, s2)
            | None \<Rightarrow> (None, print (if fmt = Vector then Finished_vector (vector_count s2)
                                     else Finished_raster (raster_count s2)) s2))"
          using Inr m h r2 by (simp add: process_def Let_def split: option.splits)
        show ?thesis
          unfolding p1 p2 using k unfolding r1 r2
          by (auto simp: same_output_def print_def split: option.splits)
      qed
    qed
  qed
  then show ?thesis by (simp add: same_output_def)
qed

theorem missing_variable_is_skipped_witness:
  "var_short_name ''foo'' \<notin> set (map fst (data_vars era5_2x2))
   \<and> ''foo'' \<notin> set (map fst (data_vars era5_2x2))
   \<and> same_output (Variable_not_found ''foo'')
         (process boxes io_ok Raster ''out'' [south_west] [''00'', ''12'']
            ([''2m_temperature''] @ ''foo'' # []) era5_2x2 empty_state)
         (process boxes io_ok Raster ''out'' [south_west] [''00'', ''12'']
            ([''2m_temperature''] @ []) era5_2x2 empty_state)
   \<and> exit_status (fst (process boxes io_ok Raster ''out'' [south_west] [''00'', ''12'']
            [''2m_temperature'', ''foo''] era5_2x2 empty_state)) = 0
   \<and> map fst (files (snd (process boxes io_ok Raster ''out'' [south_west] [''00'', ''12'']
            [''2m_temperature'', ''foo''] era5_2x2 empty_state)))
       = [''out/2m_temperature_20240101_0000.tif'', ''out/2m_temperature_20240101_1200.tif'']"
proof -
  have a: "var_short_name ''foo'' \<notin> set (map fst (data_vars era5_2x2))" by code_simp
  have b: "''foo'' \<notin> set (map fst (data_vars era5_2x2))" by code_simp
  have c: "exit_status (fst (process boxes io_ok Raster ''out'' [south_west] [''00'', ''12'']
            [''2m_temperature'', ''foo''] era5_2x2 empty_state)) = 0" by code_simp
  have d: "map fst (files (snd (process boxes io_ok Raster ''out'' [south_west] [''00'', ''12'']
            [''2m_temperature'', ''foo''] era5_2x2 empty_state)))
       = [''out/2m_temperature_20240101_0000.tif'', ''out/2m_temperature_20240101_1200.tif'']"
    by code_simp
  show ?thesis
    using missing_variable_is_skipped[OF a b, of boxes io_ok Raster "''out''" "[south_west]"
        "[''00'', ''12'']" "[''2m_temperature'']" "[]" empty_state] a b c d
    by simp
qed

section \<open>Properties of the vector grid emitter\<close>

lemma raster_loop_files:
  assumes new: "\<And>idx t data cd cm clons clats r w.
      \<lbrakk>hour_selected hrs t; isel_time ds v idx = Inr data;
       clip_to_polygon_bounds data m (longitude ds) (latitude ds) = (cd, cm, clons, clats);
       save_raster env (where_nan cm cd) (raster_path out var t) clons clats = Inr (r, w)\<rbrakk>
      \<Longrightarrow> Q (raster_path out var t, Raster_file r)"
    and old: "\<forall>f \<in> set (files st). Q f"
    and run: "raster_loop env ds m v var hrs out its st = (e, st')"
  shows "\<forall>f \<in> set (files st'). Q f"
  using old run
proof (induction its arbitrary: st)
  case Nil
  then show ?case by simp
next
  case (Cons x its)
  obtain idx t where x: "x = (idx, t)" by (cases x)
  show ?case
  proof (cases "hour_selected hrs t")
    case False
    then show ?thesis using Cons by (simp add: x)
  next
    case sel: True
    show ?thesis
    proof (cases "isel_time ds v idx")
      case (Inl err)
      then show ?thesis using Cons.prems sel by (simp add: x)
    next
      case (Inr data)
      obtain cd cm clons clats where
        c: "clip_to_polygon_bounds data m (longitude ds) (latitude ds) = (cd, cm, clons, clats)"
        by (cases "clip_to_polygon_bounds data m (longitude ds) (latitude ds)")
      show ?thesis
      proof (cases "save_raster env (where_nan cm cd) (raster_path out var t) clons clats")
        case (Inl err)
        then show ?thesis using Cons.prems sel Inr c by (simp add: x raster_path_def)
      next
        case sr: (Inr rw)
        obtain r w where rw: "rw = (r, w)" by (cases rw)
        have q: "Q (raster_path out var t, Raster_file r)"
          using new[OF sel Inr c] sr rw by simp
        let ?s = "add_state st (raster_delta (raster_path out var t) r w)"
        have step: "raster_loop env ds m v var hrs out (x # its) st
            = raster_loop env ds m v var hrs out its ?s"
          using sel Inr c sr rw
          by (simp add: x raster_step_delta[symmetric] Let_def raster_path_def)
        have "\<forall>f \<in> set (files ?s). Q f"
          using Cons.prems(1) q by (auto simp: add_state_def raster_delta_def)
        then show ?thesis using Cons.IH[of ?s] Cons.prems(2) unfolding step by blast
      qed
    qed
  qed
qed

lemma vector_layers_files:
  assumes new: "\<And>t gdf. \<lbrakk>hour_selected hrs t; geometry_column gdf = map fst cells;
        lat_center gdf = map (\<lambda>(g, i, j). latitude ds ! i) cells;
        lon_center gdf = map (\<lambda>(g, i, j). longitude ds ! j) cells; value_name gdf = var\<rbrakk>
      \<Longrightarrow> Q (vector_path out var t, Vector_file gdf)"
    and old: "\<forall>f \<in> set (files st). Q f"
    and run: "vector_layers ds cells v var hrs out its st created = (e, st', created')"
  shows "\<forall>f \<in> set (files st'). Q f"
  using old run
proof (induction its arbitrary: st created)
  case Nil
  then show ?case by simp
next
  case (Cons x its)
  obtain idx t where x: "x = (idx, t)" by (cases x)
  show ?case
  proof (cases "hour_selected hrs t")
    case False
    then show ?thesis using Cons by (simp add: x)
  next
    case sel: True
    show ?thesis
    proof (cases "isel_time ds v idx")
      case (Inl err)
      then show ?thesis using Cons.prems sel by (simp add: x)
    next
      case (Inr data)
      show ?thesis
      proof (cases "collect (\<lambda>(g, i, j). at2 data i j) cells")
        case (Inl err)
        then show ?thesis using Cons.prems sel Inr by (simp add: x)
      next
        case vals: (Inr pixel_values)
        let ?gdf = "\<lparr>geometry_column = map fst cells, value_name = var,
                      value_column = pixel_values,
                      lat_center = map (\<lambda>(g, i, j). latitude ds ! i) cells,
                      lon_center = map (\<lambda>(g, i, j). longitude ds ! j) cells\<rparr>"
        let ?p = "vector_path out var t"
        let ?s = "add_state st (vector_delta ?p ?gdf)"
        have q: "Q (?p, Vector_file ?gdf)" using new[OF sel, of ?gdf] by simp
        have step: "vector_layers ds cells v var hrs out (x # its) st created
            = vector_layers ds cells v var hrs out its ?s (created @ [?p])"
          using sel Inr vals
          by (simp add: x vector_step_delta[symmetric] Let_def vector_path_def)
        have "\<forall>f \<in> set (files ?s). Q f"
          using Cons.prems(1) q by (auto simp: add_state_def vector_delta_def)
        then show ?thesis using Cons.IH[of ?s "created @ [?p]"] Cons.prems(2) unfolding step by blast
      qed
    qed
  qed
qed

lemma create_vector_grid_files:
  assumes new: "\<And>t gdf. \<lbrakk>hour_selected hrs t;
        geometry_column gdf = map fst (pixel_cells G (longitude ds) (latitude ds) (union_all G polygons));
        lat_center gdf = map (\<lambda>(g, i, j). latitude ds ! i)
                           (pixel_cells G (longitude ds) (latitude ds) (union_all G polygons));
        lon_center gdf = map (\<lambda>(g, i, j). longitude ds ! j)
                           (pixel_cells G (longitude ds) (latitude ds) (union_all G polygons));
        value_name gdf = var\<rbrakk>
      \<Longrightarrow> Q (vector_path out var t, Vector_file gdf)"
    and old: "\<forall>f \<in> set (files st). Q f"
    and run: "create_vector_grid G ds polygons v var hrs out st = (e, st', created)"
  shows "\<forall>f \<in> set (files st'). Q f"
proof -
  let ?cells = "pixel_cells G (longitude ds) (latitude ds) (union_all G polygons)"
  show ?thesis
  proof (cases "?cells = []")
    case True
    then show ?thesis using old run by (auto simp: create_vector_grid_def Let_def print_def)
  next
    case ne: False
    show ?thesis
    proof (cases "time_values ds")
      case (Inl err)
      then show ?thesis using ne old run by (auto simp: create_vector_grid_def Let_def print_def)
    next
      case (Inr tv)
      have r: "vector_layers ds ?cells v var hrs out (enumerate 0 tv)
                 (print Computing_intersections st) [] = (e, st', created)"
        using ne Inr run by (simp add: create_vector_grid_def Let_def)
      have o: "\<forall>f \<in> set (files (print Computing_intersections st)). Q f"
        using old by (simp add: print_def)
      show ?thesis by (rule vector_layers_files[OF new o r])
    qed
  qed
qed

lemma variables_loop_files:
  assumes newr: "\<And>var v idx t data cd cm clons clats r w.
      \<lbrakk>fmt \<noteq> Vector; hour_selected hrs t; isel_time ds v idx = Inr data;
       clip_to_polygon_bounds data m (longitude ds) (latitude ds) = (cd, cm, clons, clats);
       save_raster env (where_nan cm cd) (raster_path out var t) clons clats = Inr (r, w)\<rbrakk>
      \<Longrightarrow> Q (raster_path out var t, Raster_file r)"
    and newv: "\<And>var t gdf. \<lbrakk>fmt = Vector; hour_selected hrs t;
        geometry_column gdf = map fst (pixel_cells G (longitude ds) (latitude ds) (union_all G polygons));
        lat_center gdf = map (\<lambda>(g, i, j). latitude ds ! i)
                           (pixel_cells G (longitude ds) (latitude ds) (union_all G polygons));
        lon_center gdf = map (\<lambda>(g, i, j). longitude ds ! j)
                           (pixel_cells G (longitude ds) (latitude ds) (union_all G polygons));
        value_name gdf = var\<rbrakk>
      \<Longrightarrow> Q (vector_path out var t, Vector_file gdf)"
    and old: "\<forall>f \<in> set (files st). Q f"
    and run: "variables_loop G env fmt out polygons ds m hrs vs st = (e, st')"
  shows "\<forall>f \<in> set (files st'). Q f"
  using old run
proof (induction vs arbitrary: st)
  case Nil
  then show ?case by simp
next
  case (Cons var vs)
  show ?case
  proof (cases "var_to_use ds var")
    case None
    have "\<forall>f \<in> set (files (print (Variable_not_found var) st)). Q f"
      using Cons.prems(1) by (simp add: print_def)
    then show ?thesis using Cons.IH Cons.prems(2) None by simp
  next
    case (Some v)
    let ?st1 = "print (Processing_variable v var) st"
    have o1: "\<forall>f \<in> set (files ?st1). Q f" using Cons.prems(1) by (simp add: print_def)
    show ?thesis
    proof (cases "fmt = Vector")
      case vec: True
      obtain e1 st2 created where r:
        "create_vector_grid G ds polygons v var hrs out ?st1 = (e1, st2, created)"
        by (cases "create_vector_grid G ds polygons v var hrs out ?st1") auto
      have o2: "\<forall>f \<in> set (files st2). Q f"
        by (rule create_vector_grid_files[OF newv[OF vec] o1 r])
      show ?thesis
      proof (cases e1)
        case (Some err)
        then show ?thesis using Cons.prems(2) \<open>var_to_use ds var = Some v\<close> vec r o2 by simp
      next
        case None
        let ?st3 = "st2\<lparr>vector_count := vector_count st2 + length created\<rparr>"
        have o3: "\<forall>f \<in> set (files ?st3). Q f" using o2 by simp
        have "variables_loop G env fmt out polygons ds m hrs vs ?st3 = (e, st')"
          using Cons.prems(2) \<open>var_to_use ds var = Some v\<close> vec r None by simp
        then show ?thesis using Cons.IH[OF o3] by blast
      qed
    next
      case ras: False
      show ?thesis
      proof (cases "time_values ds")
        case (Inl err)
        then show ?thesis using Cons.prems(2) \<open>var_to_use ds var = Some v\<close> ras o1 by auto
      next
        case (Inr tv)
        obtain e1 st2 where r:
          "raster_loop env ds m v var hrs out (enumerate 0 tv) ?st1 = (e1, st2)"
          by (cases "raster_loop env ds m v var hrs out (enumerate 0 tv) ?st1") auto
        have o2: "\<forall>f \<in> set (files st2). Q f"
          by (rule raster_loop_files[OF newr[OF ras] o1 r])
        show ?thesis
        proof (cases e1)
          case (Some err)
          then show ?thesis using Cons.prems(2) \<open>var_to_use ds var = Some v\<close> ras Inr r o2 by simp
        next
          case None
          have "variables_loop G env fmt out polygons ds m hrs vs st2 = (e, st')"
            using Cons.prems(2) \<open>var_to_use ds var = Some v\<close> ras Inr r None by simp
          then show ?thesis using Cons.IH[OF o2] by blast
        qed
      qed
    qed
  qed
qed

lemma process_files:
  assumes al: "align_grid ds0 = Inr ds"
    and newr: "\<And>m var v idx t data cd cm clons clats r w.
      \<lbrakk>create_polygon_mask G polygons ds = Inr m; fmt \<noteq> Vector;
       hour_selected hrs t; isel_time ds v idx = Inr data;
       clip_to_polygon_bounds data m (longitude ds) (latitude ds) = (cd, cm, clons, clats);
       save_raster env (where_nan cm cd) (raster_path out var t) clons clats = Inr (r, w)\<rbrakk>
      \<Longrightarrow> Q (raster_path out var t, Raster_file r)"
    and newv: "\<And>var t gdf. \<lbrakk>fmt = Vector; hour_selected hrs t;
        geometry_column gdf = map fst (pixel_cells G (longitude ds) (latitude ds) (union_all G polygons));
        lat_center gdf = map (\<lambda>(g, i, j). latitude ds ! i)
                           (pixel_cells G (longitude ds) (latitude ds) (union_all G polygons));
        lon_center gdf = map (\<lambda>(g, i, j). longitude ds ! j)
                           (pixel_cells G (longitude ds) (latitude ds) (union_all G polygons));
        value_name gdf = var\<rbrakk>
      \<Longrightarrow> Q (vector_path out var t, Vector_file gdf)"
    and hr: "ints_of hours = Inr hrs"
    and old: "\<forall>f \<in> set (files st). Q f"
  shows "\<forall>f \<in> set (files (snd (process G env fmt out polygons hours variables ds0 st))). Q f"
proof (cases "create_polygon_mask G polygons ds")
  case (Inl err)
  then show ?thesis using al old by (simp add: process_def print_def)
next
  case (Inr m)
  let ?st3 = "print (Mask_generated (length (filter id (concat m))) (length m * ncols m))
                (print Generating_mask (print (Available_variables (map fst (data_vars ds0))) st))"
  have o3: "\<forall>f \<in> set (files ?st3). Q f" using old by (simp add: print_def)
  obtain e st4 where r: "variables_loop G env fmt out polygons ds m hrs variables ?st3 = (e, st4)"
    by (cases "variables_loop G env fmt out polygons ds m hrs variables ?st3") auto
  have o4: "\<forall>f \<in> set (files st4). Q f"
    by (rule variables_loop_files[OF newr[OF Inr] newv o3 r])
  show ?thesis
    using al Inr hr r o4 by (cases e) (simp_all add: process_def Let_def print_def)
qed

lemma align_sample: "align_grid era5_2x2 = Inr era5_2x2_aligned"
  by code_simp

lemma pixel_cells_iff:
  "(g, i, j) \<in> set (pixel_cells G lons lats target) \<longleftrightarrow>
     i < length lats \<and> j < length lons
     \<and> intersects G (cell_footprint lons lats i j) target
     \<and> g = intersection G (cell_footprint lons lats i j) target
     \<and> \<not> is_empty G g \<and> 0 < area G g"
proof -
  let ?keep = "\<lambda>i j. intersects G (cell_footprint lons lats i j) target
      \<and> \<not> is_empty G (intersection G (cell_footprint lons lats i j) target)
      \<and> 0 < area G (intersection G (cell_footprint lons lats i j) target)"
  have cell: "(\<lambda>j. let pixel_poly = cell_footprint lons lats i' j in
         if intersects G pixel_poly target then
           (let clipped_geom = intersection G pixel_poly target in
            if \<not> is_empty G clipped_geom \<and> area G clipped_geom > 0 then [(clipped_geom, i', j)]
            else [])
         else [])
     = (\<lambda>j. if ?keep i' j then [(intersection G (cell_footprint lons lats i' j) target, i', j)] else [])"
    for i'
    by (rule ext) (simp add: Let_def)
  have "(g, i, j) \<in> set (pixel_cells G lons lats target) \<longleftrightarrow>
      (\<exists>i' < length lats. \<exists>j' < length lons. ?keep i' j'
          \<and> (g, i, j) = (intersection G (cell_footprint lons lats i' j') target, i', j'))"
    unfolding pixel_cells_def cell
    by (simp add: Bex_def) (metis (no_types, lifting) empty_iff empty_set list.set_intros(1) set_ConsD)
  then show ?thesis by auto
qed

text \<open>
  Claim C5, as the code has it. \<^verbatim>\<open>create_vector_grid\<close> computes the intersection
  geometries once per call, that is once for every variable it processes, from the grid's
  coordinates and the union of the region's geometries: a cell is kept exactly when its
  footprint intersects the union and the intersection is not empty and has an area above
  zero. The list depends on the grid and the region only, so every vector layer a run
  writes, for any variable and any timestamp, holds the same list of geometries and the
  same \<^verbatim>\<open>lat_center\<close> and \<^verbatim>\<open>lon_center\<close> columns.
\<close>

theorem vector_layers_share_geometry:
  assumes "align_grid ds0 = Inr ds" and "files st = []"
  shows "(\<forall>(p, a) \<in> set (files (snd (process G env fmt out polygons hours variables ds0 st))).
            \<forall>gdf. a = Vector_file gdf \<longrightarrow>
              geometry_column gdf
                = map fst (pixel_cells G (longitude ds) (latitude ds) (union_all G polygons))
              \<and> lat_center gdf
                = map (\<lambda>(g, i, j). latitude ds ! i)
                    (pixel_cells G (longitude ds) (latitude ds) (union_all G polygons))
              \<and> lon_center gdf
                = map (\<lambda>(g, i, j). longitude ds ! j)
                    (pixel_cells G (longitude ds) (latitude ds) (union_all G polygons)))
       \<and> (\<forall>g i j. (g, i, j) \<in> set (pixel_cells G (longitude ds) (latitude ds) (union_all G polygons))
            \<longleftrightarrow> i < length (latitude ds) \<and> j < length (longitude ds)
              \<and> intersects G (cell_footprint (longitude ds) (latitude ds) i j) (union_all G polygons)
              \<and> g = intersection G (cell_footprint (longitude ds) (latitude ds) i j) (union_all G polygons)
              \<and> \<not> is_empty G g \<and> 0 < area G g)"
proof (intro conjI)
  let ?cells = "pixel_cells G (longitude ds) (latitude ds) (union_all G polygons)"
  let ?Q = "\<lambda>f :: string \<times> 'a artifact. \<forall>gdf. snd f = Vector_file gdf \<longrightarrow>
              geometry_column gdf = map fst ?cells
              \<and> lat_center gdf = map (\<lambda>(g, i, j). latitude ds ! i) ?cells
              \<and> lon_center gdf = map (\<lambda>(g, i, j). longitude ds ! j) ?cells"
  have old: "\<forall>f \<in> set (files st). ?Q f" using assms(2) by simp
  have "\<forall>f \<in> set (files (snd (process G env fmt out polygons hours variables ds0 st))). ?Q f"
  proof (cases "ints_of hours")
    case (Inl err)
    then show ?thesis using assms
      by (auto simp: process_def Let_def print_def split: sum.splits)
  next
    case (Inr hrs)
    show ?thesis
      by (rule process_files[OF assms(1) _ _ Inr old]) simp_all
  qed
  then show "\<forall>(p, a) \<in> set (files (snd (process G env fmt out polygons hours variables ds0 st))).
            \<forall>gdf. a = Vector_file gdf \<longrightarrow>
              geometry_column gdf = map fst ?cells
              \<and> lat_center gdf = map (\<lambda>(g, i, j). latitude ds ! i) ?cells
              \<and> lon_center gdf = map (\<lambda>(g, i, j). longitude ds ! j) ?cells"
    by auto
  show "\<forall>g i j. (g, i, j) \<in> set ?cells
            \<longleftrightarrow> i < length (latitude ds) \<and> j < length (longitude ds)
              \<and> intersects G (cell_footprint (longitude ds) (latitude ds) i j) (union_all G polygons)
              \<and> g = intersection G (cell_footprint (longitude ds) (latitude ds) i j) (union_all G polygons)
              \<and> \<not> is_empty G g \<and> 0 < area G g"
    by (intro allI) (rule pixel_cells_iff)
qed

theorem vector_layers_share_geometry_witness:
  "align_grid era5_2x2 = Inr era5_2x2_aligned \<and> files (empty_state :: box list run_state) = []
   \<and> map snd (files (snd (process boxes io_ok Vector ''out'' [south_west] [''00'', ''12'']
         [''2m_temperature'', ''tp''] era5_2x2 empty_state)))
      = [Vector_file \<lparr>geometry_column = [south_west], value_name = ''2m_temperature'',
                       value_column = [Some 13], lat_center = [0], lon_center = [0]\<rparr>,
         Vector_file \<lparr>geometry_column = [south_west], value_name = ''2m_temperature'',
                       value_column = [Some 33], lat_center = [0], lon_center = [0]\<rparr>,
         Vector_file \<lparr>geometry_column = [south_west], value_name = ''tp'',
                       value_column = [Some 3], lat_center = [0], lon_center = [0]\<rparr>,
         Vector_file \<lparr>geometry_column = [south_west], value_name = ''tp'',
                       value_column = [Some 11], lat_center = [0], lon_center = [0]\<rparr>]
   \<and> (south_west, 0, 0) \<in> set (pixel_cells boxes (longitude era5_2x2_aligned)
          (latitude era5_2x2_aligned) (union_all boxes [south_west]))"
proof -
  have f: "files (empty_state :: box list run_state) = []" by (simp add: empty_state_def)
  have e: "map snd (files (snd (process boxes io_ok Vector ''out'' [south_west] [''00'', ''12'']
         [''2m_temperature'', ''tp''] era5_2x2 empty_state)))
      = [Vector_file \<lparr>geometry_column = [south_west], value_name = ''2m_temperature'',
                       value_column = [Some 13], lat_center = [0], lon_center = [0]\<rparr>,
         Vector_file \<lparr>geometry_column = [south_west], value_name = ''2m_temperature'',
                       value_column = [Some 33], lat_center = [0], lon_center = [0]\<rparr>,
         Vector_file \<lparr>geometry_column = [south_west], value_name = ''tp'',
                       value_column = [Some 3], lat_center = [0], lon_center = [0]\<rparr>,
         Vector_file \<lparr>geometry_column = [south_west], value_name = ''tp'',
                       value_column = [Some 11], lat_center = [0], lon_center = [0]\<rparr>]"
    by code_simp
  have c: "(south_west, 0, 0) \<in> set (pixel_cells boxes (longitude era5_2x2_aligned)
          (latitude era5_2x2_aligned) (union_all boxes [south_west]))"
    by code_simp
  show ?thesis
    using vector_layers_share_geometry[OF align_sample f, of boxes io_ok Vector "''out''"
        "[south_west]" "[''00'', ''12'']" "[''2m_temperature'', ''tp'']"] align_sample f e c
    by blast
qed

text \<open>
  The claim as stated fails on a run in vector mode with two variables the dataset
  holds: the intersections are computed twice in this run, once for each variable.
\<close>

theorem intersections_once_per_run_counterexample:
  "count_list
     (printed (snd (main sample_world
        (sample_args\<lparr>format_arg := Vector, vars_arg := ''2m_temperature,tp''\<rparr>))))
     Computing_intersections = 2"
  by code_simp

section \<open>Selected timestamps\<close>

lemma slice_nonempty:
  assumes "a < b" "b \<le> length xs"
  shows "slice a b xs \<noteq> []"
proof -
  have "length (slice a b xs) = b - a" using assms by (simp add: slice_def)
  then show ?thesis using assms by auto
qed

lemma clip_coords_nonempty:
  assumes "rect (length lats) (length lons) m" "lons \<noteq> []" "lats \<noteq> []"
    and "clip_to_polygon_bounds data m lons lats = (cd, cm, clons, clats)"
  shows "clons \<noteq> [] \<and> clats \<noteq> []"
proof (cases "has_true m")
  case True
  have c: "clons = slice (col_start m) (col_end m) lons" "clats = slice (row_start m) (row_end m) lats"
    using clip_else[OF assms(1) True, of data lons lats] assms(4) by simp_all
  have "row_end m \<le> length lats" using row_bounds(2)[OF True] assms(1) by (simp add: rect_def)
  then show ?thesis
    unfolding c
    using slice_nonempty[OF col_bounds(1)[OF assms(1) True] col_bounds(2)[OF assms(1) True]]
          slice_nonempty[OF row_bounds(1)[OF True]] by simp
next
  case False
  then show ?thesis using clip_none[OF False, of data lons lats] assms by simp
qed

lemma save_raster_ok:
  assumes "lons \<noteq> []" "lats \<noteq> []"
  shows "\<exists>r w. save_raster env data p lons lats = Inr (r, w)"
  by (simp add: save_raster_def grid_transform_ok[OF assms] Let_def)

lemma var_to_use_in:
  "var_to_use ds var = Some v \<Longrightarrow> v \<in> set (map fst (data_vars ds))"
  by (auto simp: var_to_use_def split: if_splits)

lemma isel_time_ok:
  assumes "wf_dataset ds" "time_values ds = Inr tv" "v \<in> set (map fst (data_vars ds))"
    and "idx < length tv"
  shows "\<exists>data. isel_time ds v idx = Inr data
           \<and> rect (length (latitude ds)) (length (longitude ds)) data"
proof -
  obtain slices where s: "map_of (data_vars ds) v = Some slices"
    using assms(3) by (metis map_of_eq_None_iff not_Some_eq set_map)
  then have mem: "(v, slices) \<in> set (data_vars ds)" by (rule map_of_SomeD)
  have "list_all (\<lambda>(name, slices). length slices = length tv \<and>
            list_all (rect (length (latitude ds)) (length (longitude ds))) slices) (data_vars ds)"
    using assms(1,2) by (simp add: wf_dataset_def)
  then have w: "length slices = length tv"
      "list_all (rect (length (latitude ds)) (length (longitude ds))) slices"
    using mem by (auto simp: list_all_iff)
  have "rect (length (latitude ds)) (length (longitude ds)) (slices ! idx)"
    using w assms(4) by (simp add: list_all_length)
  then show ?thesis using s w(1) assms(4) by (simp add: isel_time_def)
qed

lemma raster_loop_ok:
  assumes wf: "wf_dataset ds" and tv: "time_values ds = Inr tv"
    and v: "v \<in> set (map fst (data_vars ds))"
    and m: "rect (length (latitude ds)) (length (longitude ds)) m"
    and n: "n + length tms \<le> length tv"
  shows "\<exists>d. raster_loop env ds m v var hrs out (enumerate n tms) st = (None, add_state st d)
           \<and> map fst (files d) = map (raster_path out var) (filter (hour_selected hrs) tms)
           \<and> raster_count d = length (filter (hour_selected hrs) tms)
           \<and> vector_count d = 0"
  using n
proof (induction tms arbitrary: n st)
  case Nil
  have "raster_loop env ds m v var hrs out (enumerate n []) st = (None, add_state st empty_state)"
    by simp
  moreover have "files (empty_state :: 'a run_state) = []" "raster_count (empty_state :: 'a run_state) = 0"
    "vector_count (empty_state :: 'a run_state) = 0"
    by (simp_all add: empty_state_def)
  ultimately show ?case by (metis filter.simps(1) list.map(1) list.size(3))
next
  case (Cons t tms)
  have n': "Suc n + length tms \<le> length tv" using Cons.prems by simp
  show ?case
  proof (cases "hour_selected hrs t")
    case False
    then show ?thesis using Cons.IH[OF n', of st] by simp
  next
    case sel: True
    have "n < length tv" using Cons.prems by simp
    then obtain data where d: "isel_time ds v n = Inr data"
      using isel_time_ok[OF wf tv v] by blast
    obtain cd cm clons clats where
      c: "clip_to_polygon_bounds data m (longitude ds) (latitude ds) = (cd, cm, clons, clats)"
      by (cases "clip_to_polygon_bounds data m (longitude ds) (latitude ds)")
    have ne: "longitude ds \<noteq> []" "latitude ds \<noteq> []" using wf by (simp_all add: wf_dataset_def)
    have cne: "clons \<noteq> []" "clats \<noteq> []" using clip_coords_nonempty[OF m ne c] by simp_all
    obtain r w where sr: "save_raster env (where_nan cm cd) (raster_path out var t) clons clats = Inr (r, w)"
      using save_raster_ok[OF cne] by blast
    let ?dl = "raster_delta (raster_path out var t) r w :: 'a run_state"
    have step: "raster_loop env ds m v var hrs out (enumerate n (t # tms)) st
        = raster_loop env ds m v var hrs out (enumerate (Suc n) tms) (add_state st ?dl)"
      using sel d c sr by (simp add: raster_step_delta[symmetric] Let_def raster_path_def)
    obtain d' where d': "raster_loop env ds m v var hrs out (enumerate (Suc n) tms) (add_state st ?dl)
          = (None, add_state (add_state st ?dl) d')"
        "map fst (files d') = map (raster_path out var) (filter (hour_selected hrs) tms)"
        "raster_count d' = length (filter (hour_selected hrs) tms)" "vector_count d' = 0"
      using Cons.IH[OF n', of "add_state st ?dl"] by blast
    have "raster_loop env ds m v var hrs out (enumerate n (t # tms)) st
        = (None, add_state st (add_state ?dl d'))"
      unfolding step d'(1) by (simp add: add_state_assoc)
    moreover have "map fst (files (add_state ?dl d'))
        = map (raster_path out var) (filter (hour_selected hrs) (t # tms))"
      using sel d'(2) by (simp add: add_state_def raster_delta_def)
    moreover have "raster_count (add_state ?dl d') = length (filter (hour_selected hrs) (t # tms))"
      using sel d'(3) by (simp add: add_state_def raster_delta_def)
    moreover have "vector_count (add_state ?dl d') = 0"
      using d'(4) by (simp add: add_state_def raster_delta_def)
    ultimately show ?thesis by blast
  qed
qed

lemma collect_ok:
  assumes "\<forall>x \<in> set xs. \<exists>y. f x = Inr y"
  shows "\<exists>ys. collect f xs = Inr ys"
  using assms by (induction xs) auto

lemma at2_ok:
  assumes "rect h w a" "i < h" "j < w"
  shows "\<exists>y. at2 a i j = Inr y"
  using assms rect_row[OF assms(1,2)] by (simp add: at2_def rect_def)

lemma vector_layers_ok:
  assumes wf: "wf_dataset ds" and tv: "time_values ds = Inr tv"
    and v: "v \<in> set (map fst (data_vars ds))"
    and cells: "\<forall>c \<in> set cells. fst (snd c) < length (latitude ds) \<and> snd (snd c) < length (longitude ds)"
    and n: "n + length tms \<le> length tv"
  shows "\<exists>d. vector_layers ds cells v var hrs out (enumerate n tms) st created
             = (None, add_state st d, created @ map (vector_path out var) (filter (hour_selected hrs) tms))
           \<and> map fst (files d) = map (vector_path out var) (filter (hour_selected hrs) tms)
           \<and> raster_count d = 0 \<and> vector_count d = 0"
  using n
proof (induction tms arbitrary: n st created)
  case Nil
  have "vector_layers ds cells v var hrs out (enumerate n []) st created
      = (None, add_state st empty_state, created @ [])"
    by simp
  moreover have "files (empty_state :: 'a run_state) = []" "raster_count (empty_state :: 'a run_state) = 0"
    "vector_count (empty_state :: 'a run_state) = 0"
    by (simp_all add: empty_state_def)
  ultimately show ?case by (metis filter.simps(1) list.map(1))
next
  case (Cons t tms)
  have n': "Suc n + length tms \<le> length tv" using Cons.prems by simp
  show ?case
  proof (cases "hour_selected hrs t")
    case False
    then show ?thesis using Cons.IH[OF n', of st created] by simp
  next
    case sel: True
    have "n < length tv" using Cons.prems by simp
    then obtain data where d: "isel_time ds v n = Inr data"
      and r: "rect (length (latitude ds)) (length (longitude ds)) data"
      using isel_time_ok[OF wf tv v] by blast
    have "\<forall>c \<in> set cells. \<exists>y. (\<lambda>(g, i, j). at2 data i j) c = Inr y"
      using cells at2_ok[OF r] by (auto simp: case_prod_unfold)
    then obtain vals where vals: "collect (\<lambda>(g, i, j). at2 data i j) cells = Inr vals"
      using collect_ok by blast
    let ?gdf = "\<lparr>geometry_column = map fst cells, value_name = var,
                  value_column = vals,
                  lat_center = map (\<lambda>(g, i, j). latitude ds ! i) cells,
                  lon_center = map (\<lambda>(g, i, j). longitude ds ! j) cells\<rparr>"
    let ?p = "vector_path out var t"
    let ?dl = "vector_delta ?p ?gdf"
    have step: "vector_layers ds cells v var hrs out (enumerate n (t # tms)) st created
        = vector_layers ds cells v var hrs out (enumerate (Suc n) tms) (add_state st ?dl) (created @ [?p])"
      using sel d vals by (simp add: vector_step_delta[symmetric] Let_def vector_path_def)
    obtain d' where d': "vector_layers ds cells v var hrs out (enumerate (Suc n) tms)
            (add_state st ?dl) (created @ [?p])
          = (None, add_state (add_state st ?dl) d',
             (created @ [?p]) @ map (vector_path out var) (filter (hour_selected hrs) tms))"
        "map fst (files d') = map (vector_path out var) (filter (hour_selected hrs) tms)"
        "raster_count d' = 0" "vector_count d' = 0"
      using Cons.IH[OF n', of "add_state st ?dl" "created @ [?p]"] by blast
    have "vector_layers ds cells v var hrs out (enumerate n (t # tms)) st created
        = (None, add_state st (add_state ?dl d'),
           created @ map (vector_path out var) (filter (hour_selected hrs) (t # tms)))"
      unfolding step d'(1) using sel by (simp add: add_state_assoc)
    moreover have "map fst (files (add_state ?dl d'))
        = map (vector_path out var) (filter (hour_selected hrs) (t # tms))"
      using sel d'(2) by (simp add: add_state_def vector_delta_def)
    moreover have "raster_count (add_state ?dl d') = 0" "vector_count (add_state ?dl d') = 0"
      using d'(3,4) by (simp_all add: add_state_def vector_delta_def)
    ultimately show ?thesis by blast
  qed
qed

lemma create_vector_grid_ok:
  assumes wf: "wf_dataset ds" and tv: "time_values ds = Inr tv"
    and v: "v \<in> set (map fst (data_vars ds))"
  shows "\<exists>d. create_vector_grid G ds polygons v var hrs out st
            = (None, add_state st d,
               if pixel_cells G (longitude ds) (latitude ds) (union_all G polygons) = [] then []
               else map (vector_path out var) (filter (hour_selected hrs) tv))
          \<and> map fst (files d)
            = (if pixel_cells G (longitude ds) (latitude ds) (union_all G polygons) = [] then []
               else map (vector_path out var) (filter (hour_selected hrs) tv))
          \<and> (pixel_cells G (longitude ds) (latitude ds) (union_all G polygons) = []
                \<longrightarrow> printed d = [Computing_intersections, No_valid_intersections])
          \<and> raster_count d = 0 \<and> vector_count d = 0"
proof -
  let ?cells = "pixel_cells G (longitude ds) (latitude ds) (union_all G polygons)"
  show ?thesis
  proof (cases "?cells = []")
    case True
    let ?d = "add_state (event_delta Computing_intersections) (event_delta No_valid_intersections) :: 'a run_state"
    have "create_vector_grid G ds polygons v var hrs out st = (None, add_state st ?d, [])"
      using True by (simp add: create_vector_grid_def Let_def print_delta add_state_assoc)
    moreover have "files ?d = []" "printed ?d = [Computing_intersections, No_valid_intersections]"
      "raster_count ?d = 0" "vector_count ?d = 0"
      by (simp_all add: add_state_def event_delta_def)
    ultimately show ?thesis using True by (metis list.map(1))
  next
    case ne: False
    have c: "\<forall>c \<in> set ?cells. fst (snd c) < length (latitude ds) \<and> snd (snd c) < length (longitude ds)"
      using pixel_cells_iff[of _ _ _ G "longitude ds" "latitude ds" "union_all G polygons"]
      by (metis prod.collapse)
    let ?s1 = "add_state st (event_delta Computing_intersections)"
    obtain d' where d': "vector_layers ds ?cells v var hrs out (enumerate 0 tv) ?s1 []
          = (None, add_state ?s1 d', [] @ map (vector_path out var) (filter (hour_selected hrs) tv))"
        "map fst (files d') = map (vector_path out var) (filter (hour_selected hrs) tv)"
        "raster_count d' = 0" "vector_count d' = 0"
      using vector_layers_ok[OF wf tv v c, of 0 tv var hrs out ?s1 "[]"] by auto
    let ?d = "add_state (event_delta Computing_intersections) d'"
    have "create_vector_grid G ds polygons v var hrs out st
        = (None, add_state st ?d, map (vector_path out var) (filter (hour_selected hrs) tv))"
      using ne tv d'(1) by (simp add: create_vector_grid_def Let_def print_delta add_state_assoc)
    moreover have "map fst (files ?d) = map (vector_path out var) (filter (hour_selected hrs) tv)"
      using d'(2) by (simp add: add_state_def event_delta_def)
    moreover have "raster_count ?d = 0" "vector_count ?d = 0"
      using d'(3,4) by (simp_all add: add_state_def event_delta_def)
    ultimately show ?thesis using ne by auto
  qed
qed

text \<open>
  Claim C6, as the code has it. For a variable the dataset holds, in raster mode the
  pipeline writes one raster for every timestamp of the dataset whose hour is among the
  requested hours, in the dataset's order, and none for another timestamp. In vector
  mode it writes one layer for every such timestamp when at least one cell has an
  intersection of positive area with the region, and no layer at all when no cell has.
\<close>

theorem one_artifact_per_selected_timestamp:
  assumes "wf_dataset ds" and "time_values ds = Inr tv"
    and "rect (length (latitude ds)) (length (longitude ds)) m"
    and "var_to_use ds var = Some v"
  shows "(\<exists>d. raster_loop env ds m v var hrs out (enumerate 0 tv) st = (None, add_state st d)
            \<and> map fst (files d) = map (raster_path out var) (filter (hour_selected hrs) tv)
            \<and> raster_count d = length (filter (hour_selected hrs) tv))
       \<and> (\<exists>d. create_vector_grid G ds polygons v var hrs out st
                = (None, add_state st d, map fst (files d))
            \<and> map fst (files d)
                = (if pixel_cells G (longitude ds) (latitude ds) (union_all G polygons) = [] then []
                   else map (vector_path out var) (filter (hour_selected hrs) tv)))"
proof -
  let ?sel = "filter (hour_selected hrs) tv"
  let ?cells = "pixel_cells G (longitude ds) (latitude ds) (union_all G polygons)"
  have v: "v \<in> set (map fst (data_vars ds))" using assms(4) by (rule var_to_use_in)
  have n: "0 + length tv \<le> length tv" by simp
  obtain d1 where d1: "raster_loop env ds m v var hrs out (enumerate 0 tv) st = (None, add_state st d1)"
      "map fst (files d1) = map (raster_path out var) ?sel" "raster_count d1 = length ?sel"
    using raster_loop_ok[OF assms(1,2) v assms(3) n] by blast
  obtain d2 where d2: "create_vector_grid G ds polygons v var hrs out st
            = (None, add_state st d2, if ?cells = [] then [] else map (vector_path out var) ?sel)"
     "map fst (files d2) = (if ?cells = [] then [] else map (vector_path out var) ?sel)"
    using create_vector_grid_ok[OF assms(1,2) v] by blast
  have a: "\<exists>d. raster_loop env ds m v var hrs out (enumerate 0 tv) st = (None, add_state st d)
            \<and> map fst (files d) = map (raster_path out var) ?sel
            \<and> raster_count d = length ?sel"
    by (intro exI[of _ d1] conjI d1)
  have "create_vector_grid G ds polygons v var hrs out st = (None, add_state st d2, map fst (files d2))"
    unfolding d2(2) by (rule d2(1))
  then have b: "\<exists>d. create_vector_grid G ds polygons v var hrs out st
                = (None, add_state st d, map fst (files d))
            \<and> map fst (files d) = (if ?cells = [] then [] else map (vector_path out var) ?sel)"
    using d2(2) by (intro exI[of _ d2] conjI)
  show ?thesis by (rule conjI[OF a b])
qed

theorem one_artifact_per_selected_timestamp_witness:
  "wf_dataset era5_two_days \<and> time_values era5_two_days = Inr two_days_hourly
   \<and> rect (length (latitude era5_two_days)) (length (longitude era5_two_days)) [[True]]
   \<and> var_to_use era5_two_days ''2m_temperature'' = Some ''t2m''
   \<and> ints_of (split_comma ''00,12'') = Inr [0, 12]
   \<and> length two_days_hourly = 48
   \<and> (\<exists>d. raster_loop io_ok era5_two_days [[True]] ''t2m'' ''2m_temperature'' [0, 12] ''out''
             (enumerate 0 two_days_hourly) (empty_state :: box list run_state)
           = (None, add_state empty_state d)
          \<and> map fst (files d)
            = [''out/2m_temperature_20240101_0000.tif'', ''out/2m_temperature_20240101_1200.tif'',
               ''out/2m_temperature_20240102_0000.tif'', ''out/2m_temperature_20240102_1200.tif'']
          \<and> raster_count d = 4)"
proof -
  have w: "wf_dataset era5_two_days" by code_simp
  have t: "time_values era5_two_days = Inr two_days_hourly" by code_simp
  have r: "rect (length (latitude era5_two_days)) (length (longitude era5_two_days)) [[True]]"
    by code_simp
  have v: "var_to_use era5_two_days ''2m_temperature'' = Some ''t2m''" by code_simp
  have h: "ints_of (split_comma ''00,12'') = Inr [0, 12]" by code_simp
  have l: "length two_days_hourly = 48" by code_simp
  have p: "map (raster_path ''out'' ''2m_temperature'') (filter (hour_selected [0, 12]) two_days_hourly)
      = [''out/2m_temperature_20240101_0000.tif'', ''out/2m_temperature_20240101_1200.tif'',
         ''out/2m_temperature_20240102_0000.tif'', ''out/2m_temperature_20240102_1200.tif'']"
    by code_simp
  have c: "length (filter (hour_selected [0, 12]) two_days_hourly) = 4" by code_simp
  have "\<exists>d. raster_loop io_ok era5_two_days [[True]] ''t2m'' ''2m_temperature'' [0, 12] ''out''
             (enumerate 0 two_days_hourly) (empty_state :: box list run_state)
           = (None, add_state empty_state d)
          \<and> map fst (files d)
            = map (raster_path ''out'' ''2m_temperature'') (filter (hour_selected [0, 12]) two_days_hourly)
          \<and> raster_count d = length (filter (hour_selected [0, 12]) two_days_hourly)"
    by (rule one_artifact_per_selected_timestamp[OF w t r v, THEN conjunct1])
  then have e: "\<exists>d. raster_loop io_ok era5_two_days [[True]] ''t2m'' ''2m_temperature'' [0, 12] ''out''
             (enumerate 0 two_days_hourly) (empty_state :: box list run_state)
           = (None, add_state empty_state d)
          \<and> map fst (files d)
            = [''out/2m_temperature_20240101_0000.tif'', ''out/2m_temperature_20240101_1200.tif'',
               ''out/2m_temperature_20240102_0000.tif'', ''out/2m_temperature_20240102_1200.tif'']
          \<and> raster_count d = 4"
    unfolding p c .
  show ?thesis by (intro conjI w t r v h l e)
qed

text \<open>
  The claim as stated fails in vector mode on a region that meets no cell: the variable is
  processed and the dataset has a timestamp of a requested hour, and no layer is written.
\<close>

theorem no_intersection_no_artifact_counterexample:
  "var_to_use era5_2x2_aligned ''2m_temperature'' = Some ''t2m''
   \<and> time_values era5_2x2_aligned = Inr [ts 2024 1 1 0, ts 2024 1 1 6, ts 2024 1 1 12]
   \<and> hour_selected [0, 12] (ts 2024 1 1 0)
   \<and> fst (process boxes io_ok Vector ''out'' [far_away] [''00'', ''12'']
             [''2m_temperature''] era5_2x2 empty_state) = None
   \<and> Processing_variable ''t2m'' ''2m_temperature''
        \<in> set (printed (snd (process boxes io_ok Vector ''out'' [far_away] [''00'', ''12'']
             [''2m_temperature''] era5_2x2 empty_state)))
   \<and> files (snd (process boxes io_ok Vector ''out'' [far_away] [''00'', ''12'']
             [''2m_temperature''] era5_2x2 empty_state)) = []"
  by code_simp

section \<open>The run on an empty mask\<close>










end
